theory Spec2Isabelle
  imports Main
begin

section \<open>The framework as the code sees it\<close>

text \<open>
  The module \<^verbatim>\<open>highres3Dnet.py\<close> wires layers of a deep-learning framework into a network.
  The framework itself is not part of the repository; the embedding keeps it at the
  interface the code uses. A layer object is the class it was created from, with the
  arguments the code passes, together with whatever state the framework keeps inside it
  (learned weights, running statistics); that state is an opaque value of type \<open>'b\<close>, and a
  tensor is an opaque value of type \<open>'t\<close>.
\<close>

datatype error =
    AssertionError string
  | UnboundLocalError string
  | AttributeError string
  | KeyError string
  | IndexError
  | RuntimeError string

text \<open>
  The classes of \<^verbatim>\<open>torch.nn\<close> the code instantiates. A convolution carries
  \<^verbatim>\<open>in_channels, out_channels, kernel_size, dilation, bias\<close>, a normalisation layer its
  number of features, a padding layer its padding.
\<close>

datatype nn =
    Conv2d int int int int bool
  | Conv3d int int int int bool
  | BatchNorm2d int
  | BatchNorm3d int
  | InstanceNorm2d int
  | InstanceNorm3d int
  | ReLU
  | ReflectionPad2d int
  | ReplicationPad2d int
  | ZeroPad2d int
  | Dropout3d
  | Sigmoid
  | Softmax
  | Identity

record ('t, 'b) torch =
  buffers :: "nn \<Rightarrow> 'b"
  call :: "nn \<Rightarrow> 'b \<Rightarrow> 't \<Rightarrow> (error + 't) \<times> 'b"
  F_pad :: "'t \<Rightarrow> int list \<Rightarrow> string \<Rightarrow> error + 't"
  shape :: "'t \<Rightarrow> int list"
  new_zeros :: "'t \<Rightarrow> int list \<Rightarrow> error + 't"
  cat :: "'t list \<Rightarrow> nat \<Rightarrow> error + 't"
  add :: "'t \<Rightarrow> 't \<Rightarrow> error + 't"

text \<open>
  \<open>buffers T m\<close> is the state a freshly created layer \<open>m\<close> starts with, \<open>call T m b x\<close>
  applies the layer in state \<open>b\<close> to \<open>x\<close> and returns the result (or the framework's error)
  with the layer's next state. The other fields are \<^verbatim>\<open>torch.nn.functional.pad\<close>,
  \<^verbatim>\<open>x.shape\<close>, \<^verbatim>\<open>x.new_zeros\<close>, \<^verbatim>\<open>torch.cat\<close> and tensor addition.
  The constructors of the framework's layers are taken to succeed: what they reject
  (a channel count that is not a positive integer, say) is outside the embedding.
\<close>

definition nn_getattr :: "string \<Rightarrow> (int \<Rightarrow> nn) option" where
  "nn_getattr class_name =
     map_of [(''ReflectionPad2d'', ReflectionPad2d),
             (''ReplicationPad2d'', ReplicationPad2d),
             (''ZeroPad2d'', ZeroPad2d)] class_name"

section \<open>Module constants\<close>

definition PADDING_MODES :: "(string \<times> string) list" where
  "PADDING_MODES =
     [(''reflect'', ''Reflection''),
      (''replicate'', ''Replication''),
      (''constant'', ''Zero'')]"

definition BATCH_DIM :: nat where
  "BATCH_DIM = 0"

definition CHANNELS_DIM :: nat where
  "CHANNELS_DIM = 1"

section \<open>The modules and their constructors\<close>

subsection \<open>Pad3d\<close>

record Pad3d =
  self_pad :: "int list"
  self_mode :: string

definition Pad3d_init :: "int \<Rightarrow> string \<Rightarrow> error + Pad3d" where
  "Pad3d_init pad mode =
     (if mode \<notin> set (map fst PADDING_MODES)
      then Inl (AssertionError ''mode in PADDING_MODES.keys()'')
      else Inr \<lparr>self_pad = replicate 6 pad, self_mode = mode\<rparr>)"

text \<open>A member of a \<^verbatim>\<open>nn.Sequential\<close> of layers: a framework layer with its state, or a \<open>Pad3d\<close>.\<close>

datatype 'b layer =
    Layer nn 'b
  | Pad3dLayer Pad3d

definition new :: "('t, 'b) torch \<Rightarrow> nn \<Rightarrow> 'b layer" where
  "new T m = Layer m (buffers T m)"

subsection \<open>ConvolutionalBlock\<close>

record 'b ConvolutionalBlock =
  self_convolutional_block :: "'b layer list"

text \<open>
  The local variable \<^verbatim>\<open>padding_instance\<close> is bound only when \<^verbatim>\<open>dimensions\<close> is 2 or 3;
  \<open>None\<close> is the unbound variable.
\<close>

definition new_padding_instance ::
  "('t, 'b) torch \<Rightarrow> int \<Rightarrow> int option \<Rightarrow> string \<Rightarrow> error + 'b layer option" where
  "new_padding_instance T dilation dimensions padding_mode =
     (if dimensions = Some 2 then
        (case map_of PADDING_MODES padding_mode of
           None \<Rightarrow> Inl (KeyError padding_mode)
         | Some name \<Rightarrow>
             (case nn_getattr (name @ ''Pad2d'') of
                None \<Rightarrow> Inl (AttributeError (name @ ''Pad2d''))
              | Some padding_class \<Rightarrow> Inr (Some (new T (padding_class dilation)))))
      else if dimensions = Some 3 then
        (case Pad3d_init dilation padding_mode of
           Inl e \<Rightarrow> Inl e
         | Inr p \<Rightarrow> Inr (Some (Pad3dLayer p)))
      else Inr None)"

text \<open>
  \<^verbatim>\<open>norm_class\<close> is read only under \<^verbatim>\<open>batch_norm or instance_norm\<close>, after the assertion
  has excluded both; there the two assignments of the source leave the class below.
\<close>

definition norm_class :: "int option \<Rightarrow> bool \<Rightarrow> int \<Rightarrow> nn" where
  "norm_class dimensions instance_norm =
     (if instance_norm
      then (if dimensions = Some 2 then InstanceNorm2d else InstanceNorm3d)
      else (if dimensions = Some 2 then BatchNorm2d else BatchNorm3d))"

definition conv_class :: "int option \<Rightarrow> int \<Rightarrow> int \<Rightarrow> int \<Rightarrow> int \<Rightarrow> bool \<Rightarrow> nn" where
  "conv_class dimensions = (if dimensions = Some 2 then Conv2d else Conv3d)"

definition ConvolutionalBlock_init ::
  "('t, 'b) torch \<Rightarrow> int \<Rightarrow> int \<Rightarrow> int \<Rightarrow> int option \<Rightarrow> bool \<Rightarrow> bool \<Rightarrow> string \<Rightarrow> bool \<Rightarrow> int \<Rightarrow> bool
     \<Rightarrow> error + 'b ConvolutionalBlock" where
  "ConvolutionalBlock_init T in_channels out_channels dilation dimensions batch_norm instance_norm
       padding_mode preactivation kernel_size activation =
     (if padding_mode \<notin> set (map fst PADDING_MODES)
      then Inl (AssertionError ''padding_mode in PADDING_MODES.keys()'')
      else if batch_norm \<and> instance_norm
      then Inl (AssertionError ''not (batch_norm and instance_norm)'')
      else
        (case new_padding_instance T dilation dimensions padding_mode of
           Inl e \<Rightarrow> Inl e
         | Inr padding_instance \<Rightarrow>
             let layers0 =
                   (if preactivation
                    then (if batch_norm \<or> instance_norm
                          then [new T (norm_class dimensions instance_norm in_channels)] else [])
                         @ (if activation then [new T ReLU] else [])
                    else [])
             in
             (case (if kernel_size > 1
                    then (case padding_instance of
                            None \<Rightarrow> Inl (UnboundLocalError ''padding_instance'')
                          | Some p \<Rightarrow> Inr (layers0 @ [p]))
                    else Inr layers0) of
                Inl e \<Rightarrow> Inl e
              | Inr layers1 \<Rightarrow>
                  let use_bias = (\<not> (instance_norm \<or> batch_norm));
                      conv_layer = new T (conv_class dimensions in_channels out_channels
                                            kernel_size dilation use_bias);
                      layers2 = layers1 @ [conv_layer];
                      layers3 =
                        (if \<not> preactivation
                         then layers2
                              @ (if batch_norm \<or> instance_norm
                                 then [new T (norm_class dimensions instance_norm out_channels)]
                                 else [])
                              @ (if activation then [new T ReLU] else [])
                         else layers2)
                  in Inr \<lparr>self_convolutional_block = layers3\<rparr>)))"

subsection \<open>ResidualBlock\<close>

text \<open>
  The attributes of an object are the fields of a record, \<^verbatim>\<open>self.residual\<close> being
  \<open>self_residual\<close>. \<^verbatim>\<open>change_dim_layer\<close> is set only on the projecting path; \<open>None\<close> is
  the attribute that was never set.
\<close>

record 'b ResidualBlock =
  self_residual :: bool
  self_change_dimension :: bool
  self_residual_type :: string
  self_dimensions :: "int option"
  self_change_dim_layer :: "'b layer option"
  self_residual_block :: "'b ConvolutionalBlock list"

text \<open>
  The loop \<^verbatim>\<open>for _ in range(num_layers)\<close>: the first block maps \<^verbatim>\<open>in_channels\<close> to
  \<^verbatim>\<open>out_channels\<close>, every later one \<^verbatim>\<open>out_channels\<close> to itself. The blocks take the
  defaults \<^verbatim>\<open>preactivation=True, kernel_size=3, activation=True\<close>.
\<close>

fun conv_blocks ::
  "('t, 'b) torch \<Rightarrow> nat \<Rightarrow> int \<Rightarrow> int \<Rightarrow> int \<Rightarrow> int option \<Rightarrow> bool \<Rightarrow> bool \<Rightarrow> string
     \<Rightarrow> error + 'b ConvolutionalBlock list" where
  "conv_blocks T 0 in_channels out_channels dilation dimensions batch_norm instance_norm
       padding_mode = Inr []"
| "conv_blocks T (Suc n) in_channels out_channels dilation dimensions batch_norm instance_norm
       padding_mode =
     (case ConvolutionalBlock_init T in_channels out_channels dilation dimensions batch_norm
             instance_norm padding_mode True 3 True of
        Inl e \<Rightarrow> Inl e
      | Inr conv_block \<Rightarrow>
          (case conv_blocks T n out_channels out_channels dilation dimensions batch_norm
                  instance_norm padding_mode of
             Inl e \<Rightarrow> Inl e
           | Inr rest \<Rightarrow> Inr (conv_block # rest)))"

definition ResidualBlock_init ::
  "('t, 'b) torch \<Rightarrow> int \<Rightarrow> int \<Rightarrow> int \<Rightarrow> int \<Rightarrow> int option \<Rightarrow> bool \<Rightarrow> bool \<Rightarrow> bool \<Rightarrow> string \<Rightarrow> string
     \<Rightarrow> error + 'b ResidualBlock" where
  "ResidualBlock_init T in_channels out_channels num_layers dilation dimensions batch_norm
       instance_norm residual residual_type padding_mode =
     (if residual_type \<noteq> ''pad'' \<and> residual_type \<noteq> ''project''
      then Inl (AssertionError ''residual_type in (pad, project)'')
      else
        let change_dimension = (in_channels \<noteq> out_channels);
            change_dim_layer =
              (if change_dimension \<and> residual_type = ''project''
               then Some (new T (conv_class dimensions in_channels out_channels 1 dilation False))
               else None)
        in
        (case conv_blocks T (nat num_layers) in_channels out_channels dilation dimensions
                batch_norm instance_norm padding_mode of
           Inl e \<Rightarrow> Inl e
         | Inr blocks \<Rightarrow>
             Inr \<lparr>self_residual = residual,
                  self_change_dimension = change_dimension,
                  self_residual_type = residual_type,
                  self_dimensions = dimensions,
                  self_change_dim_layer = change_dim_layer,
                  self_residual_block = blocks\<rparr>))"

subsection \<open>DilationBlock\<close>

record 'b DilationBlock =
  self_in_channels :: int
  self_out_channels :: int
  self_dilation_block :: "'b ResidualBlock list"

text \<open>
  The loop \<^verbatim>\<open>for _ in range(num_residual_blocks)\<close>. \<^verbatim>\<open>residual_type\<close> is not passed on,
  so every residual block takes the default \<^verbatim>\<open>'pad'\<close>.
\<close>

fun residual_blocks ::
  "('t, 'b) torch \<Rightarrow> nat \<Rightarrow> int \<Rightarrow> int \<Rightarrow> int \<Rightarrow> int \<Rightarrow> int option \<Rightarrow> bool \<Rightarrow> bool \<Rightarrow> bool \<Rightarrow> string
     \<Rightarrow> error + 'b ResidualBlock list" where
  "residual_blocks T 0 in_channels out_channels layers_per_block dilation dimensions batch_norm
       instance_norm residual padding_mode = Inr []"
| "residual_blocks T (Suc n) in_channels out_channels layers_per_block dilation dimensions
       batch_norm instance_norm residual padding_mode =
     (case ResidualBlock_init T in_channels out_channels layers_per_block dilation dimensions
             batch_norm instance_norm residual ''pad'' padding_mode of
        Inl e \<Rightarrow> Inl e
      | Inr residual_block \<Rightarrow>
          (case residual_blocks T n out_channels out_channels layers_per_block dilation
                  dimensions batch_norm instance_norm residual padding_mode of
             Inl e \<Rightarrow> Inl e
           | Inr rest \<Rightarrow> Inr (residual_block # rest)))"

definition DilationBlock_init ::
  "('t, 'b) torch \<Rightarrow> int \<Rightarrow> int \<Rightarrow> int \<Rightarrow> int option \<Rightarrow> int \<Rightarrow> int \<Rightarrow> bool \<Rightarrow> bool \<Rightarrow> bool \<Rightarrow> string
     \<Rightarrow> error + 'b DilationBlock" where
  "DilationBlock_init T in_channels out_channels dilation dimensions layers_per_block
       num_residual_blocks batch_norm instance_norm residual padding_mode =
     (case residual_blocks T (nat num_residual_blocks) in_channels out_channels layers_per_block
             dilation dimensions batch_norm instance_norm residual padding_mode of
        Inl e \<Rightarrow> Inl e
      | Inr blocks \<Rightarrow>
          Inr \<lparr>self_in_channels = in_channels,
               self_out_channels = out_channels,
               self_dilation_block = blocks\<rparr>)"

subsection \<open>HighResNet\<close>

text \<open>A member of the network's \<^verbatim>\<open>nn.Sequential\<close> of blocks.\<close>

datatype 'b block =
    Block_Conv "'b ConvolutionalBlock"
  | Block_Dilation "'b DilationBlock"
  | Block_Layer "'b layer"

text \<open>
  \<^verbatim>\<open>outputs_activation\<close> is set on three of the branches of the constructor only; \<open>None\<close> is
  the attribute that was never set.
\<close>

record 'b HighResNet =
  self_in_channels :: int
  self_out_channels :: int
  self_layers_per_residual_block :: int
  self_residual_blocks_per_dilation :: int
  self_dilations :: int
  self_outputs_activation :: "'b layer option"
  self_block :: "'b block list"

text \<open>
  The loop \<^verbatim>\<open>for dilation_idx in range(dilations)\<close>, over the indices still to come. Its
  state is \<^verbatim>\<open>in_channels\<close>, \<^verbatim>\<open>out_channels\<close> and the block of the previous round
  (\<open>None\<close> before the first, as in the source); it returns the blocks it appended and the
  last \<^verbatim>\<open>out_channels\<close>.
\<close>

fun dilation_blocks ::
  "('t, 'b) torch \<Rightarrow> nat list \<Rightarrow> int \<Rightarrow> int \<Rightarrow> 'b DilationBlock option \<Rightarrow> int option \<Rightarrow> int \<Rightarrow> int
     \<Rightarrow> bool \<Rightarrow> bool \<Rightarrow> bool \<Rightarrow> string \<Rightarrow> error + ('b block list \<times> int)" where
  "dilation_blocks T [] in_channels out_channels dilation_block dimensions
       layers_per_residual_block residual_blocks_per_dilation batch_norm instance_norm residual
       padding_mode = Inr ([], out_channels)"
| "dilation_blocks T (dilation_idx # idxs) in_channels out_channels dilation_block dimensions
       layers_per_residual_block residual_blocks_per_dilation batch_norm instance_norm residual
       padding_mode =
     (case (if dilation_idx \<ge> 1
            then (case dilation_block of
                    None \<Rightarrow> Inl (AttributeError ''out_channels'')
                  | Some b \<Rightarrow> Inr (DilationBlock.self_out_channels b))
            else Inr in_channels) of
        Inl e \<Rightarrow> Inl e
      | Inr in_channels1 \<Rightarrow>
          let dilation = 2 ^ dilation_idx in
          (case DilationBlock_init T in_channels1 out_channels dilation dimensions
                  layers_per_residual_block residual_blocks_per_dilation batch_norm
                  instance_norm residual padding_mode of
             Inl e \<Rightarrow> Inl e
           | Inr b \<Rightarrow>
               (case dilation_blocks T idxs in_channels1 (out_channels * 2) (Some b) dimensions
                       layers_per_residual_block residual_blocks_per_dilation batch_norm
                       instance_norm residual padding_mode of
                  Inl e \<Rightarrow> Inl e
                | Inr (blocks, out_channels1) \<Rightarrow> Inr (Block_Dilation b # blocks, out_channels1))))"

text \<open>
  \<^verbatim>\<open>initial_out_channels_power\<close> is a natural number: for a negative power
  \<^verbatim>\<open>2 ** initial_out_channels_power\<close> is a float, which no layer of the framework takes
  as a channel count.
\<close>

definition HighResNet_init ::
  "('t, 'b) torch \<Rightarrow> int \<Rightarrow> int \<Rightarrow> nat \<Rightarrow> string \<Rightarrow> int option \<Rightarrow> int \<Rightarrow> int \<Rightarrow> int \<Rightarrow> bool \<Rightarrow> bool
     \<Rightarrow> bool \<Rightarrow> string \<Rightarrow> bool \<Rightarrow> error + 'b HighResNet" where
  "HighResNet_init T input_channels output_channels initial_out_channels_power
       outputs_activation dimensions layers_per_residual_block residual_blocks_per_dilation
       dilations batch_norm instance_norm residual padding_mode add_dropout_layer =
     (if dimensions \<noteq> Some 2 \<and> dimensions \<noteq> Some 3
      then Inl (AssertionError ''dimensions in (2, 3)'')
      else
        let initial_out_channels = 2 ^ initial_out_channels_power in
        (case ConvolutionalBlock_init T input_channels initial_out_channels 1 dimensions
                batch_norm instance_norm padding_mode False 3 True of
           Inl e \<Rightarrow> Inl e
         | Inr first_conv_block \<Rightarrow>
        (case dilation_blocks T [0..<nat dilations] initial_out_channels initial_out_channels
                None dimensions layers_per_residual_block residual_blocks_per_dilation
                batch_norm instance_norm residual padding_mode of
           Inl e \<Rightarrow> Inl e
         | Inr (blocks1, out_channels1) \<Rightarrow>
        let out_channels2 = out_channels1 div 2 in
        (case (if add_dropout_layer
               then (case ConvolutionalBlock_init T out_channels2 80 1 dimensions batch_norm
                            instance_norm ''constant'' False 1 True of
                       Inl e \<Rightarrow> Inl e
                     | Inr dropout_conv_block \<Rightarrow>
                         Inr ([Block_Conv dropout_conv_block, Block_Layer (new T Dropout3d)], 80))
               else Inr ([], out_channels2)) of
           Inl e \<Rightarrow> Inl e
         | Inr (blocks2, out_channels3) \<Rightarrow>
        (case ConvolutionalBlock_init T out_channels3 output_channels 1 dimensions batch_norm
                instance_norm padding_mode False 1 False of
           Inl e \<Rightarrow> Inl e
         | Inr classifier \<Rightarrow>
             Inr \<lparr>self_in_channels = input_channels,
                  self_out_channels = output_channels,
                  self_layers_per_residual_block = layers_per_residual_block,
                  self_residual_blocks_per_dilation = residual_blocks_per_dilation,
                  self_dilations = dilations,
                  self_outputs_activation =
                    (if outputs_activation = ''sigmoid'' then Some (new T Sigmoid)
                     else if outputs_activation = ''softmax'' then Some (new T Softmax)
                     else if outputs_activation = ''none'' then Some (new T Identity)
                     else None),
                  self_block =
                    [Block_Conv first_conv_block] @ blocks1 @ blocks2
                    @ [Block_Conv classifier]\<rparr>)))))"

section \<open>Forward computation\<close>

text \<open>
  Every \<^verbatim>\<open>forward\<close> returns its result, or the error that was raised, together with the
  object it was called on as the call leaves it: the code assigns no attribute, and a
  layer of the framework leaves a call with the state the framework gives it.
\<close>

definition Pad3d_forward :: "('t, 'b) torch \<Rightarrow> Pad3d \<Rightarrow> 't \<Rightarrow> error + 't" where
  "Pad3d_forward T self x = F_pad T x (self_pad self) (self_mode self)"

fun layer_forward :: "('t, 'b) torch \<Rightarrow> 'b layer \<Rightarrow> 't \<Rightarrow> (error + 't) \<times> 'b layer" where
  "layer_forward T (Layer m b) x = (case call T m b x of (r, b1) \<Rightarrow> (r, Layer m b1))"
| "layer_forward T (Pad3dLayer p) x = (Pad3d_forward T p x, Pad3dLayer p)"

text \<open>\<^verbatim>\<open>nn.Sequential\<close>: the members in order, each on the result of the one before.\<close>

fun Sequential_forward ::
  "('m \<Rightarrow> 't \<Rightarrow> (error + 't) \<times> 'm) \<Rightarrow> 'm list \<Rightarrow> 't \<Rightarrow> (error + 't) \<times> 'm list" where
  "Sequential_forward f [] x = (Inr x, [])"
| "Sequential_forward f (m # ms) x =
     (case f m x of
        (Inl e, m1) \<Rightarrow> (Inl e, m1 # ms)
      | (Inr y, m1) \<Rightarrow> (case Sequential_forward f ms y of (r, ms1) \<Rightarrow> (r, m1 # ms1)))"

definition ConvolutionalBlock_forward ::
  "('t, 'b) torch \<Rightarrow> 'b ConvolutionalBlock \<Rightarrow> 't \<Rightarrow> (error + 't) \<times> 'b ConvolutionalBlock" where
  "ConvolutionalBlock_forward T self x =
     (case Sequential_forward (layer_forward T) (self_convolutional_block self) x of
        (r, layers) \<Rightarrow> (r, self\<lparr>self_convolutional_block := layers\<rparr>))"

text \<open>Indexing a shape, \<^verbatim>\<open>x.shape[i]\<close>.\<close>

definition getitem :: "int list \<Rightarrow> nat \<Rightarrow> error + int" where
  "getitem xs i = (if i < length xs then Inr (xs ! i) else Inl IndexError)"

text \<open>The zero-padded shortcut, the body of the branch \<^verbatim>\<open>residual_type == 'pad'\<close>.\<close>

definition pad_shortcut :: "('t, 'b) torch \<Rightarrow> 't \<Rightarrow> 't \<Rightarrow> error + 't" where
  "pad_shortcut T x out =
     (case getitem (shape T x) BATCH_DIM of
        Inl e \<Rightarrow> Inl e
      | Inr batch_size \<Rightarrow>
     (case getitem (shape T x) CHANNELS_DIM of
        Inl e \<Rightarrow> Inl e
      | Inr x_channels \<Rightarrow>
     (case getitem (shape T out) CHANNELS_DIM of
        Inl e \<Rightarrow> Inl e
      | Inr out_channels \<Rightarrow>
          let spatial_dims = drop 2 (shape T x);
              diff_channels = out_channels - x_channels
          in
          (case new_zeros T x ([batch_size, diff_channels div 2] @ spatial_dims) of
             Inl e \<Rightarrow> Inl e
           | Inr zeros_half \<Rightarrow> cat T [zeros_half, x, zeros_half] CHANNELS_DIM))))"

definition ResidualBlock_forward ::
  "('t, 'b) torch \<Rightarrow> 'b ResidualBlock \<Rightarrow> 't \<Rightarrow> (error + 't) \<times> 'b ResidualBlock" where
  "ResidualBlock_forward T self x =
     (case Sequential_forward (ConvolutionalBlock_forward T) (self_residual_block self) x of
        (Inl e, blocks) \<Rightarrow> (Inl e, self\<lparr>self_residual_block := blocks\<rparr>)
      | (Inr out, blocks) \<Rightarrow>
          let self1 = self\<lparr>self_residual_block := blocks\<rparr> in
          if self_residual self then
            (case (if self_change_dimension self then
                     (if self_residual_type self = ''project'' then
                        (case self_change_dim_layer self of
                           None \<Rightarrow> (Inl (AttributeError ''change_dim_layer''), self1)
                         | Some l \<Rightarrow>
                             (case layer_forward T l x of
                                (r, l1) \<Rightarrow> (r, self1\<lparr>self_change_dim_layer := Some l1\<rparr>)))
                      else if self_residual_type self = ''pad'' then
                        (pad_shortcut T x out, self1)
                      else (Inr x, self1))
                   else (Inr x, self1)) of
               (Inl e, self2) \<Rightarrow> (Inl e, self2)
             | (Inr x1, self2) \<Rightarrow> (add T x1 out, self2))
          else (Inr out, self1))"

definition DilationBlock_forward ::
  "('t, 'b) torch \<Rightarrow> 'b DilationBlock \<Rightarrow> 't \<Rightarrow> (error + 't) \<times> 'b DilationBlock" where
  "DilationBlock_forward T self x =
     (case Sequential_forward (ResidualBlock_forward T) (self_dilation_block self) x of
        (r, blocks) \<Rightarrow> (r, self\<lparr>self_dilation_block := blocks\<rparr>))"

fun block_forward :: "('t, 'b) torch \<Rightarrow> 'b block \<Rightarrow> 't \<Rightarrow> (error + 't) \<times> 'b block" where
  "block_forward T (Block_Conv b) x =
     (case ConvolutionalBlock_forward T b x of (r, b1) \<Rightarrow> (r, Block_Conv b1))"
| "block_forward T (Block_Dilation b) x =
     (case DilationBlock_forward T b x of (r, b1) \<Rightarrow> (r, Block_Dilation b1))"
| "block_forward T (Block_Layer l) x =
     (case layer_forward T l x of (r, l1) \<Rightarrow> (r, Block_Layer l1))"

text \<open>
  \<^verbatim>\<open>return self.outputs_activation(self.block(x))\<close>: the callee is looked up before its
  argument is evaluated, so a missing attribute is reported before any block has run.
\<close>

definition HighResNet_forward ::
  "('t, 'b) torch \<Rightarrow> 'b HighResNet \<Rightarrow> 't \<Rightarrow> (error + 't) \<times> 'b HighResNet" where
  "HighResNet_forward T self x =
     (case self_outputs_activation self of
        None \<Rightarrow> (Inl (AttributeError ''outputs_activation''), self)
      | Some activation \<Rightarrow>
          (case Sequential_forward (block_forward T) (self_block self) x of
             (Inl e, blocks) \<Rightarrow> (Inl e, self\<lparr>self_block := blocks\<rparr>)
           | (Inr y, blocks) \<Rightarrow>
               (case layer_forward T activation y of
                  (r, activation1) \<Rightarrow>
                    (r, self\<lparr>self_block := blocks,
                             self_outputs_activation := Some activation1\<rparr>))))"

section \<open>Parameter count and receptive field\<close>

text \<open>
  Integer tensors of the framework hold signed 64-bit values and their arithmetic wraps
  around; \<open>int64\<close> is the value a 64-bit tensor element holds for an exact result.
\<close>

definition int64 :: "int \<Rightarrow> int" where
  "int64 v = (v + 2 ^ 63) mod 2 ^ 64 - 2 ^ 63"

text \<open>
  The shapes of the learned tensors of a layer: a convolution has a weight of shape
  \<^verbatim>\<open>(out_channels, in_channels, kernel_size, ...)\<close> and, with \<^verbatim>\<open>bias=True\<close>, a bias of shape
  \<^verbatim>\<open>(out_channels)\<close>; a batch normalisation a weight and a bias of shape
  \<^verbatim>\<open>(num_features)\<close>; an instance normalisation, created without \<^verbatim>\<open>affine\<close>, none.
\<close>

fun nn_parameters :: "nn \<Rightarrow> int list list" where
  "nn_parameters (Conv2d i o0 k d bias) = [[o0, i, k, k]] @ (if bias then [[o0]] else [])"
| "nn_parameters (Conv3d i o0 k d bias) = [[o0, i, k, k, k]] @ (if bias then [[o0]] else [])"
| "nn_parameters (BatchNorm2d c) = [[c], [c]]"
| "nn_parameters (BatchNorm3d c) = [[c], [c]]"
| "nn_parameters _ = []"

text \<open>\<^verbatim>\<open>self.parameters()\<close>: the learned tensors of all sub-modules, in registration order.\<close>

fun layer_parameters :: "'b layer \<Rightarrow> int list list" where
  "layer_parameters (Layer m b) = nn_parameters m"
| "layer_parameters (Pad3dLayer p) = []"

definition ConvolutionalBlock_parameters :: "'b ConvolutionalBlock \<Rightarrow> int list list" where
  "ConvolutionalBlock_parameters self = concat (map layer_parameters (self_convolutional_block self))"

definition ResidualBlock_parameters :: "'b ResidualBlock \<Rightarrow> int list list" where
  "ResidualBlock_parameters self =
     (case self_change_dim_layer self of None \<Rightarrow> [] | Some l \<Rightarrow> layer_parameters l)
     @ concat (map ConvolutionalBlock_parameters (self_residual_block self))"

definition DilationBlock_parameters :: "'b DilationBlock \<Rightarrow> int list list" where
  "DilationBlock_parameters self = concat (map ResidualBlock_parameters (self_dilation_block self))"

fun block_parameters :: "'b block \<Rightarrow> int list list" where
  "block_parameters (Block_Conv b) = ConvolutionalBlock_parameters b"
| "block_parameters (Block_Dilation b) = DilationBlock_parameters b"
| "block_parameters (Block_Layer l) = layer_parameters l"

definition HighResNet_parameters :: "'b HighResNet \<Rightarrow> int list list" where
  "HighResNet_parameters self =
     (case self_outputs_activation self of None \<Rightarrow> [] | Some l \<Rightarrow> layer_parameters l)
     @ concat (map block_parameters (self_block self))"

text \<open>
  \<^verbatim>\<open>sum(torch.prod(torch.tensor(p.shape)) for p in self.parameters())\<close>: the sum starts
  from 0 and adds one 64-bit product after the other.
\<close>

definition num_parameters :: "'b HighResNet \<Rightarrow> int" where
  "num_parameters self =
     foldl (\<lambda>acc p. int64 (acc + int64 (prod_list p))) 0 (HighResNet_parameters self)"



text \<open>
  The receptive field of what the constructor built, read off the blocks. A convolution of
  stride 1 with kernel size \<open>k\<close> and dilation \<open>d\<close> widens the field by \<open>(k - 1) * d\<close>; padding,
  normalisation, activation and dropout layers do not widen it; a chain of layers adds the
  widenings up; a residual block sees through the wider of its stack and its shortcut.
\<close>

fun nn_widening :: "nn \<Rightarrow> int" where
  "nn_widening (Conv2d i o0 k d bias) = (k - 1) * d"
| "nn_widening (Conv3d i o0 k d bias) = (k - 1) * d"
| "nn_widening _ = 0"

fun layer_widening :: "'b layer \<Rightarrow> int" where
  "layer_widening (Layer m b) = nn_widening m"
| "layer_widening (Pad3dLayer p) = 0"

definition ConvolutionalBlock_widening :: "'b ConvolutionalBlock \<Rightarrow> int" where
  "ConvolutionalBlock_widening self = sum_list (map layer_widening (self_convolutional_block self))"

definition ResidualBlock_widening :: "'b ResidualBlock \<Rightarrow> int" where
  "ResidualBlock_widening self =
     (let stack = sum_list (map ConvolutionalBlock_widening (self_residual_block self));
          shortcut = (case self_change_dim_layer self of None \<Rightarrow> 0 | Some l \<Rightarrow> layer_widening l)
      in if self_residual self then max stack shortcut else stack)"

definition DilationBlock_widening :: "'b DilationBlock \<Rightarrow> int" where
  "DilationBlock_widening self = sum_list (map ResidualBlock_widening (self_dilation_block self))"

fun block_widening :: "'b block \<Rightarrow> int" where
  "block_widening (Block_Conv b) = ConvolutionalBlock_widening b"
| "block_widening (Block_Dilation b) = DilationBlock_widening b"
| "block_widening (Block_Layer l) = layer_widening l"

definition topology_receptive_field :: "'b HighResNet \<Rightarrow> int" where
  "topology_receptive_field self = 1 + sum_list (map block_widening (self_block self))"

text \<open>The convolutions on the main path, in order: kernel size and dilation of each.\<close>

fun nn_convolutions :: "nn \<Rightarrow> (int \<times> int) list" where
  "nn_convolutions (Conv2d i o0 k d bias) = [(k, d)]"
| "nn_convolutions (Conv3d i o0 k d bias) = [(k, d)]"
| "nn_convolutions _ = []"

fun layer_convolutions :: "'b layer \<Rightarrow> (int \<times> int) list" where
  "layer_convolutions (Layer m b) = nn_convolutions m"
| "layer_convolutions (Pad3dLayer p) = []"

definition ConvolutionalBlock_convolutions :: "'b ConvolutionalBlock \<Rightarrow> (int \<times> int) list" where
  "ConvolutionalBlock_convolutions self =
     concat (map layer_convolutions (self_convolutional_block self))"

definition ResidualBlock_convolutions :: "'b ResidualBlock \<Rightarrow> (int \<times> int) list" where
  "ResidualBlock_convolutions self =
     concat (map ConvolutionalBlock_convolutions (self_residual_block self))"

definition DilationBlock_convolutions :: "'b DilationBlock \<Rightarrow> (int \<times> int) list" where
  "DilationBlock_convolutions self =
     concat (map ResidualBlock_convolutions (self_dilation_block self))"

fun block_convolutions :: "'b block \<Rightarrow> (int \<times> int) list" where
  "block_convolutions (Block_Conv b) = ConvolutionalBlock_convolutions b"
| "block_convolutions (Block_Dilation b) = DilationBlock_convolutions b"
| "block_convolutions (Block_Layer l) = layer_convolutions l"

definition HighResNet_convolutions :: "'b HighResNet \<Rightarrow> (int \<times> int) list" where
  "HighResNet_convolutions self = concat (map block_convolutions (self_block self))"

text \<open>The number of scalars in tensors of the given shapes.\<close>

definition numel :: "int list list \<Rightarrow> int" where
  "numel shapes = sum_list (map prod_list shapes)"

text \<open>
  The parameter count of the topology as a configuration describes it, written from the
  description and not read off the constructed modules; it is what \<open>num_parameters\<close> is
  compared with. A convolutional block from \<open>i\<close> to \<open>o\<close> channels with kernel size \<open>k\<close>
  learns a weight of \<open>o * i * k ^ dimensions\<close> scalars, a bias of \<open>o\<close> scalars when no
  normalisation is used, and with batch normalisation two vectors over the channels it
  normalises (the input channels before the convolution, the output channels after it).
  A chain of \<open>n\<close> blocks takes \<open>i\<close> to \<open>o\<close> channels in its first block and keeps \<open>o\<close> from
  there. The network is the first block, for every dilation index \<open>d\<close> a chain of residual
  blocks that are chains of convolutional blocks, the optional block to 80 channels and
  the classifier.
\<close>

definition conv_block_count :: "int option \<Rightarrow> bool \<Rightarrow> bool \<Rightarrow> bool \<Rightarrow> int \<Rightarrow> int \<Rightarrow> int \<Rightarrow> int" where
  "conv_block_count dimensions batch_norm instance_norm preactivation i o0 k =
     o0 * i * k ^ (if dimensions = Some 2 then 2 else 3)
     + (if batch_norm \<or> instance_norm then 0 else o0)
     + (if batch_norm then 2 * (if preactivation then i else o0) else 0)"

definition chain_count :: "(int \<Rightarrow> int \<Rightarrow> int) \<Rightarrow> nat \<Rightarrow> int \<Rightarrow> int \<Rightarrow> int" where
  "chain_count f n i o0 = (if n = 0 then 0 else f i o0 + int (n - 1) * f o0 o0)"

definition configuration_count ::
  "int \<Rightarrow> int \<Rightarrow> nat \<Rightarrow> int option \<Rightarrow> int \<Rightarrow> int \<Rightarrow> int \<Rightarrow> bool \<Rightarrow> bool \<Rightarrow> bool \<Rightarrow> int" where
  "configuration_count input_channels output_channels initial_out_channels_power dimensions
       layers_per_residual_block residual_blocks_per_dilation dilations batch_norm instance_norm
       add_dropout_layer =
     (let c0 = 2 ^ initial_out_channels_power;
          residual_count =
            chain_count (\<lambda>i o0. conv_block_count dimensions batch_norm instance_norm True i o0 3)
              (nat layers_per_residual_block);
          dilation_count = chain_count residual_count (nat residual_blocks_per_dilation);
          last = (c0 * 2 ^ nat dilations) div 2
      in conv_block_count dimensions batch_norm instance_norm False input_channels c0 3
         + (\<Sum>d\<leftarrow>[0..<nat dilations].
              dilation_count (if d = 0 then c0 else c0 * 2 ^ (d - 1)) (c0 * 2 ^ d))
         + (if add_dropout_layer
            then conv_block_count dimensions batch_norm instance_norm False last 80 1 else 0)
         + conv_block_count dimensions batch_norm instance_norm False
             (if add_dropout_layer then 80 else last) output_channels 1)"

section \<open>What a call leaves of a module\<close>

text \<open>
  The structure of a module is the module without the state the framework keeps in its
  layers: the classes of the layers, their arguments, their order and nesting, and the
  attributes the constructors of this code set.
\<close>

fun layer_structure :: "'b layer \<Rightarrow> unit layer" where
  "layer_structure (Layer m b) = Layer m ()"
| "layer_structure (Pad3dLayer p) = Pad3dLayer p"

definition ConvolutionalBlock_structure :: "'b ConvolutionalBlock \<Rightarrow> unit ConvolutionalBlock" where
  "ConvolutionalBlock_structure self =
     \<lparr>self_convolutional_block = map layer_structure (self_convolutional_block self)\<rparr>"

definition ResidualBlock_structure :: "'b ResidualBlock \<Rightarrow> unit ResidualBlock" where
  "ResidualBlock_structure self =
     \<lparr>self_residual = self_residual self,
      self_change_dimension = self_change_dimension self,
      self_residual_type = self_residual_type self,
      self_dimensions = self_dimensions self,
      self_change_dim_layer = map_option layer_structure (self_change_dim_layer self),
      self_residual_block = map ConvolutionalBlock_structure (self_residual_block self)\<rparr>"

definition DilationBlock_structure :: "'b DilationBlock \<Rightarrow> unit DilationBlock" where
  "DilationBlock_structure self =
     \<lparr>DilationBlock.self_in_channels = DilationBlock.self_in_channels self,
      DilationBlock.self_out_channels = DilationBlock.self_out_channels self,
      self_dilation_block = map ResidualBlock_structure (self_dilation_block self)\<rparr>"

fun block_structure :: "'b block \<Rightarrow> unit block" where
  "block_structure (Block_Conv b) = Block_Conv (ConvolutionalBlock_structure b)"
| "block_structure (Block_Dilation b) = Block_Dilation (DilationBlock_structure b)"
| "block_structure (Block_Layer l) = Block_Layer (layer_structure l)"

section \<open>Shapes\<close>

text \<open>
  The shape rules of the framework's operations, as its documentation gives them for
  batched input \<^verbatim>\<open>(N, C, spatial...)\<close>. A convolution of stride 1 without padding of its own
  takes a spatial extent \<open>n\<close> to \<open>n - dilation * (kernel_size - 1)\<close>; padding by
  \<^verbatim>\<open>(left, right)\<close> pairs, last dimension first, adds each pair to its dimension;
  concatenation adds the extents along its dimension and needs the others equal; addition
  broadcasts, aligning shapes at the right and stretching extents of 1.
\<close>

definition conv_out_shape :: "int \<Rightarrow> int \<Rightarrow> int \<Rightarrow> int list \<Rightarrow> int list" where
  "conv_out_shape out_channels kernel_size dilation s =
     take 1 s @ [out_channels] @ map (\<lambda>n. n - dilation * (kernel_size - 1)) (drop 2 s)"

fun pair_sums :: "int list \<Rightarrow> int list" where
  "pair_sums (l # r # ps) = (l + r) # pair_sums ps"
| "pair_sums ps = []"

definition pad_out_shape :: "int list \<Rightarrow> int list \<Rightarrow> int list" where
  "pad_out_shape s pads =
     (let k = length pads div 2
      in take (length s - k) s @ map2 (+) (drop (length s - k) s) (rev (pair_sums pads)))"

fun nn_out_shape :: "nn \<Rightarrow> int list \<Rightarrow> int list option" where
  "nn_out_shape (Conv2d i o0 k d bias) s =
     (if length s = 4 then Some (conv_out_shape o0 k d s) else None)"
| "nn_out_shape (Conv3d i o0 k d bias) s =
     (if length s = 5 then Some (conv_out_shape o0 k d s) else None)"
| "nn_out_shape (ReflectionPad2d p) s = Some (pad_out_shape s [p, p, p, p])"
| "nn_out_shape (ReplicationPad2d p) s = Some (pad_out_shape s [p, p, p, p])"
| "nn_out_shape (ZeroPad2d p) s = Some (pad_out_shape s [p, p, p, p])"
| "nn_out_shape m s = Some s"

definition cat_out_shape :: "int list list \<Rightarrow> nat \<Rightarrow> int list option" where
  "cat_out_shape ss dim =
     (case ss of
        [] \<Rightarrow> None
      | s # rest \<Rightarrow>
          if dim < length s
             \<and> list_all (\<lambda>s1. length s1 = length s \<and> s1[dim := 0] = s[dim := 0]) rest
          then Some (s[dim := sum_list (map (\<lambda>s1. s1 ! dim) ss)])
          else None)"

definition broadcast_shapes :: "int list \<Rightarrow> int list \<Rightarrow> int list option" where
  "broadcast_shapes a b =
     (let n = max (length a) (length b);
          a1 = replicate (n - length a) 1 @ a;
          b1 = replicate (n - length b) 1 @ b
      in if list_all2 (\<lambda>x y. x = y \<or> x = 1 \<or> y = 1) a1 b1
         then Some (map2 (\<lambda>x y. if x = 1 then y else x) a1 b1)
         else None)"

text \<open>
  A framework keeps the shape rules when each of its operations, where it returns a
  tensor, returns one of the shape the rule gives, and creates no tensor of a negative
  extent.
\<close>

definition torch_shapes :: "('t, 'b) torch \<Rightarrow> bool" where
  "torch_shapes T \<longleftrightarrow>
     (\<forall>m b x y b1 s. call T m b x = (Inr y, b1) \<longrightarrow> nn_out_shape m (shape T x) = Some s
          \<longrightarrow> shape T y = s)
     \<and> (\<forall>x pads mode y. F_pad T x pads mode = Inr y \<longrightarrow> shape T y = pad_out_shape (shape T x) pads)
     \<and> (\<forall>x dims z. new_zeros T x dims = Inr z \<longrightarrow> shape T z = dims \<and> list_all (\<lambda>n. 0 \<le> n) dims)
     \<and> (\<forall>xs dim z. cat T xs dim = Inr z \<longrightarrow> cat_out_shape (map (shape T) xs) dim = Some (shape T z))
     \<and> (\<forall>x y z. add T x y = Inr z \<longrightarrow> broadcast_shapes (shape T x) (shape T y) = Some (shape T z))"

text \<open>
  A batch tensor for a network of the given \<^verbatim>\<open>dimensions\<close> has the batch dimension, the
  channel dimension and that many spatial dimensions. A module keeps the spatial shape
  when, on a batch tensor, whatever it returns is a batch tensor of the same spatial
  dimensions.
\<close>

definition batch_rank :: "int option \<Rightarrow> nat" where
  "batch_rank dimensions = (if dimensions = Some 2 then 4 else 5)"

definition keeps_spatial ::
  "('t, 'b) torch \<Rightarrow> nat \<Rightarrow> ('m \<Rightarrow> 't \<Rightarrow> (error + 't) \<times> 'm) \<Rightarrow> 'm \<Rightarrow> bool" where
  "keeps_spatial T r f m \<longleftrightarrow>
     (\<forall>x y m1. f m x = (Inr y, m1) \<longrightarrow> length (shape T x) = r
        \<longrightarrow> length (shape T y) = r \<and> drop 2 (shape T y) = drop 2 (shape T x))"

subsection \<open>A framework of shapes\<close>

text \<open>
  The framework with every tensor replaced by its shape and every layer's state by the
  number of calls it has seen. An operation returns where the shape rule applies and the
  operands are the ones the documentation asks for: the channel count a convolution or a
  batch normalisation was created for, spatial extents that hold the dilated kernel, a
  known padding mode, extents that are not negative.
\<close>

fun nn_accepts :: "nn \<Rightarrow> int list \<Rightarrow> bool" where
  "nn_accepts (Conv2d i o0 k d bias) s =
     (s ! 1 = i \<and> 1 \<le> k \<and> 1 \<le> d \<and> list_all (\<lambda>n. d * (k - 1) < n) (drop 2 s))"
| "nn_accepts (Conv3d i o0 k d bias) s =
     (s ! 1 = i \<and> 1 \<le> k \<and> 1 \<le> d \<and> list_all (\<lambda>n. d * (k - 1) < n) (drop 2 s))"
| "nn_accepts (BatchNorm2d c) s = (length s = 4 \<and> s ! 1 = c)"
| "nn_accepts (BatchNorm3d c) s = (length s = 5 \<and> s ! 1 = c)"
| "nn_accepts (InstanceNorm2d c) s = (length s = 4)"
| "nn_accepts (InstanceNorm3d c) s = (length s = 5)"
| "nn_accepts (ReflectionPad2d p) s = (length s = 4 \<and> 0 \<le> p \<and> list_all (\<lambda>n. p < n) (drop 2 s))"
| "nn_accepts (ReplicationPad2d p) s = (length s = 4 \<and> 0 \<le> p)"
| "nn_accepts (ZeroPad2d p) s = (length s = 4 \<and> 0 \<le> p)"
| "nn_accepts m s = True"

definition shape_call :: "nn \<Rightarrow> nat \<Rightarrow> int list \<Rightarrow> (error + int list) \<times> nat" where
  "shape_call m b x =
     ((case nn_out_shape m x of
         None \<Rightarrow> Inl (RuntimeError ''input of the wrong rank'')
       | Some y \<Rightarrow> if nn_accepts m x then Inr y else Inl (RuntimeError ''input not accepted'')),
      Suc b)"

definition shape_F_pad :: "int list \<Rightarrow> int list \<Rightarrow> string \<Rightarrow> error + int list" where
  "shape_F_pad x pads mode =
     (if mode \<in> set (map fst PADDING_MODES) \<and> even (length pads)
         \<and> length pads div 2 \<le> length x \<and> list_all (\<lambda>n. 0 \<le> n) (pad_out_shape x pads)
      then Inr (pad_out_shape x pads)
      else Inl (RuntimeError ''padding not accepted''))"

definition shape_new_zeros :: "int list \<Rightarrow> int list \<Rightarrow> error + int list" where
  "shape_new_zeros x dims =
     (if list_all (\<lambda>n. 0 \<le> n) dims then Inr dims
      else Inl (RuntimeError ''negative dimension''))"

definition shape_cat :: "int list list \<Rightarrow> nat \<Rightarrow> error + int list" where
  "shape_cat xs dim =
     (case cat_out_shape xs dim of
        None \<Rightarrow> Inl (RuntimeError ''sizes of tensors must match'')
      | Some z \<Rightarrow> Inr z)"

definition shape_add :: "int list \<Rightarrow> int list \<Rightarrow> error + int list" where
  "shape_add x y =
     (case broadcast_shapes x y of
        None \<Rightarrow> Inl (RuntimeError ''sizes of tensors must match'')
      | Some z \<Rightarrow> Inr z)"

definition shape_torch :: "(int list, nat) torch" where
  "shape_torch =
     \<lparr>buffers = (\<lambda>m. 0),
      call = shape_call,
      F_pad = shape_F_pad,
      shape = (\<lambda>x. x),
      new_zeros = shape_new_zeros,
      cat = shape_cat,
      add = shape_add\<rparr>"

section \<open>Construction: which configurations are rejected\<close>

lemma padding_mode_keys:
  "pm \<in> set (map fst PADDING_MODES) \<longleftrightarrow> pm = ''reflect'' \<or> pm = ''replicate'' \<or> pm = ''constant''"
  by (auto simp: PADDING_MODES_def)

lemma new_padding_instance_2d:
  "pm \<in> set (map fst PADDING_MODES) \<Longrightarrow>
   new_padding_instance T d (Some 2) pm =
     Inr (Some (new T ((if pm = ''reflect'' then ReflectionPad2d
                        else if pm = ''replicate'' then ReplicationPad2d else ZeroPad2d) d)))"
  by (auto simp: padding_mode_keys new_padding_instance_def PADDING_MODES_def nn_getattr_def)

lemma new_padding_instance_3d:
  "pm \<in> set (map fst PADDING_MODES) \<Longrightarrow>
   new_padding_instance T d (Some 3) pm =
     Inr (Some (Pad3dLayer \<lparr>self_pad = replicate 6 d, self_mode = pm\<rparr>))"
  by (simp add: new_padding_instance_def Pad3d_init_def)

lemma new_padding_instance_other:
  "dims \<noteq> Some 2 \<Longrightarrow> dims \<noteq> Some 3 \<Longrightarrow> new_padding_instance T d dims pm = Inr None"
  by (simp add: new_padding_instance_def)

lemma ConvolutionalBlock_init_assertion:
  "(\<exists>msg. ConvolutionalBlock_init T ic oc d dims bn inorm pm pre k act = Inl (AssertionError msg))
   \<longleftrightarrow> pm \<notin> set (map fst PADDING_MODES) \<or> (bn \<and> inorm)"
proof (cases "pm \<in> set (map fst PADDING_MODES) \<and> \<not> (bn \<and> inorm)")
  case False
  then show ?thesis by (auto simp: ConvolutionalBlock_init_def)
next
  case True
  consider "dims = Some 2" | "dims = Some 3" | "dims \<noteq> Some 2" "dims \<noteq> Some 3" by blast
  then show ?thesis
  proof cases
    case 1
    with True show ?thesis
      by (simp add: ConvolutionalBlock_init_def new_padding_instance_2d Let_def)
  next
    case 2
    with True show ?thesis
      by (simp add: ConvolutionalBlock_init_def new_padding_instance_3d Let_def)
  next
    case 3
    with True show ?thesis
      by (simp add: ConvolutionalBlock_init_def new_padding_instance_other Let_def)
  qed
qed

lemma ConvolutionalBlock_init_Inr:
  "(\<exists>self. ConvolutionalBlock_init T ic oc d dims bn inorm pm pre k act = Inr self)
   \<longleftrightarrow> pm \<in> set (map fst PADDING_MODES) \<and> \<not> (bn \<and> inorm) \<and> (dims = Some 2 \<or> dims = Some 3 \<or> k \<le> 1)"
proof (cases "pm \<in> set (map fst PADDING_MODES) \<and> \<not> (bn \<and> inorm)")
  case False
  then show ?thesis by (auto simp: ConvolutionalBlock_init_def)
next
  case True
  consider "dims = Some 2" | "dims = Some 3" | "dims \<noteq> Some 2" "dims \<noteq> Some 3" by blast
  then show ?thesis
  proof cases
    case 1
    with True show ?thesis
      by (simp add: ConvolutionalBlock_init_def new_padding_instance_2d Let_def)
  next
    case 2
    with True show ?thesis
      by (simp add: ConvolutionalBlock_init_def new_padding_instance_3d Let_def)
  next
    case 3
    with True show ?thesis
      by (auto simp add: ConvolutionalBlock_init_def new_padding_instance_other Let_def)
  qed
qed

lemma ConvolutionalBlock_init_unbound:
  "pm \<in> set (map fst PADDING_MODES) \<Longrightarrow> \<not> (bn \<and> inorm) \<Longrightarrow> dims \<noteq> Some 2 \<Longrightarrow> dims \<noteq> Some 3 \<Longrightarrow> 1 < k \<Longrightarrow>
   ConvolutionalBlock_init T ic oc d dims bn inorm pm pre k act = Inl (UnboundLocalError ''padding_instance'')"
  by (simp add: ConvolutionalBlock_init_def new_padding_instance_other Let_def)


lemma ConvolutionalBlock_init_Inl:
  assumes "ConvolutionalBlock_init T ic oc d dims bn inorm pm pre k act = Inl e"
  shows "e = AssertionError ''padding_mode in PADDING_MODES.keys()''
         \<or> e = AssertionError ''not (batch_norm and instance_norm)''
         \<or> e = UnboundLocalError ''padding_instance''"
proof (cases "pm \<in> set (map fst PADDING_MODES) \<and> \<not> (bn \<and> inorm)")
  case False
  with assms show ?thesis by (auto simp: ConvolutionalBlock_init_def split: if_splits)
next
  case True
  consider "dims = Some 2" | "dims = Some 3" | "dims \<noteq> Some 2" "dims \<noteq> Some 3" by blast
  then show ?thesis
  proof cases
    case 1
    with True assms show ?thesis
      by (simp add: ConvolutionalBlock_init_def new_padding_instance_2d Let_def split: if_splits)
  next
    case 2
    with True assms show ?thesis
      by (simp add: ConvolutionalBlock_init_def new_padding_instance_3d Let_def split: if_splits)
  next
    case 3
    with True assms show ?thesis
      by (simp add: ConvolutionalBlock_init_def new_padding_instance_other Let_def split: if_splits)
  qed
qed

lemma conv_blocks_Inr:
  assumes "pm \<in> set (map fst PADDING_MODES)" "\<not> (bn \<and> inorm)" "dims = Some 2 \<or> dims = Some 3"
  shows "\<exists>bs. conv_blocks T n ic oc d dims bn inorm pm = Inr bs"
proof (induction n arbitrary: ic)
  case 0
  show ?case by simp
next
  case (Suc n)
  from assms obtain b where "ConvolutionalBlock_init T ic oc d dims bn inorm pm True 3 True = Inr b"
    using ConvolutionalBlock_init_Inr [of T ic oc d dims bn inorm pm True 3 True] by auto
  moreover from Suc obtain bs where "conv_blocks T n oc oc d dims bn inorm pm = Inr bs" by blast
  ultimately show ?case by simp
qed

lemma conv_blocks_Inl:
  assumes "conv_blocks T n ic oc d dims bn inorm pm = Inl e"
  shows "0 < n \<and> (e = AssertionError ''padding_mode in PADDING_MODES.keys()''
         \<or> e = AssertionError ''not (batch_norm and instance_norm)''
         \<or> e = UnboundLocalError ''padding_instance'')"
  using assms
proof (induction n arbitrary: ic)
  case 0
  then show ?case by simp
next
  case (Suc n)
  then show ?case
    by (auto split: sum.splits dest: ConvolutionalBlock_init_Inl)
qed

lemma conv_blocks_Suc_invalid:
  assumes "\<not> (pm \<in> set (map fst PADDING_MODES) \<and> \<not> (bn \<and> inorm) \<and> (dims = Some 2 \<or> dims = Some 3))"
  shows "\<exists>e. conv_blocks T (Suc n) ic oc d dims bn inorm pm = Inl e"
proof -
  have "\<not> (\<exists>self. ConvolutionalBlock_init T ic oc d dims bn inorm pm True 3 True = Inr self)"
    using assms ConvolutionalBlock_init_Inr [of T ic oc d dims bn inorm pm True 3 True] by auto
  then obtain e where "ConvolutionalBlock_init T ic oc d dims bn inorm pm True 3 True = Inl e"
    by (cases "ConvolutionalBlock_init T ic oc d dims bn inorm pm True 3 True") auto
  then show ?thesis by simp
qed

lemma ResidualBlock_init_Inr:
  assumes "pm \<in> set (map fst PADDING_MODES)" "\<not> (bn \<and> inorm)" "dims = Some 2 \<or> dims = Some 3"
      and "rt = ''pad'' \<or> rt = ''project''"
  shows "\<exists>rb. ResidualBlock_init T ic oc n d dims bn inorm res rt pm = Inr rb"
proof -
  obtain bs where "conv_blocks T (nat n) ic oc d dims bn inorm pm = Inr bs"
    using conv_blocks_Inr [OF assms(1-3)] by blast
  with assms(4) show ?thesis by (auto simp: ResidualBlock_init_def Let_def)
qed

lemma residual_blocks_Inr:
  assumes "pm \<in> set (map fst PADDING_MODES)" "\<not> (bn \<and> inorm)" "dims = Some 2 \<or> dims = Some 3"
  shows "\<exists>bs. residual_blocks T n ic oc B d dims bn inorm res pm = Inr bs"
proof (induction n arbitrary: ic)
  case 0
  show ?case by simp
next
  case (Suc n)
  obtain b where "ResidualBlock_init T ic oc B d dims bn inorm res ''pad'' pm = Inr b"
    using ResidualBlock_init_Inr [OF assms, of "''pad''"] by blast
  moreover from Suc obtain bs where "residual_blocks T n oc oc B d dims bn inorm res pm = Inr bs"
    by blast
  ultimately show ?case by simp
qed

lemma DilationBlock_init_Inr:
  assumes "pm \<in> set (map fst PADDING_MODES)" "\<not> (bn \<and> inorm)" "dims = Some 2 \<or> dims = Some 3"
  shows "\<exists>b. DilationBlock_init T ic oc d dims B N bn inorm res pm = Inr b"
proof -
  obtain bs where "residual_blocks T (nat N) ic oc B d dims bn inorm res pm = Inr bs"
    using residual_blocks_Inr [OF assms] by blast
  then show ?thesis by (simp add: DilationBlock_init_def)
qed

lemma dilation_blocks_Inr:
  assumes "pm \<in> set (map fst PADDING_MODES)" "\<not> (bn \<and> inorm)" "dims = Some 2 \<or> dims = Some 3"
      and "db \<noteq> None \<or> idxs = [] \<or> hd idxs = 0"
  shows "\<exists>r. dilation_blocks T idxs ic oc db dims B N bn inorm res pm = Inr r"
  using assms(4)
proof (induction idxs arbitrary: ic oc db)
  case Nil
  show ?case by simp
next
  case (Cons i idxs)
  define ic1 where "ic1 = (if 1 \<le> i then DilationBlock.self_out_channels (the db) else ic)"
  have in1: "(if 1 \<le> i
            then (case db of None \<Rightarrow> Inl (AttributeError ''out_channels'')
                  | Some b \<Rightarrow> Inr (DilationBlock.self_out_channels b))
            else Inr ic) = Inr ic1"
    using Cons.prems by (auto simp: ic1_def split: option.splits)
  obtain b where b: "DilationBlock_init T ic1 oc (2 ^ i) dims B N bn inorm res pm = Inr b"
    using DilationBlock_init_Inr [OF assms(1-3)] by blast
  obtain bs oc1 where "dilation_blocks T idxs ic1 (oc * 2) (Some b) dims B N bn inorm res pm = Inr (bs, oc1)"
    using Cons.IH [of "Some b" ic1 "oc * 2"] by auto
  with in1 b show ?case by (simp add: Let_def)
qed

lemma upt_hd: "[0..<n] = [] \<or> hd [0..<n] = 0"
  by (induction n) (auto simp: hd_append)

lemma HighResNet_init_Inr:
  assumes "pm \<in> set (map fst PADDING_MODES)" "\<not> (bn \<and> inorm)" "dims = Some 2 \<or> dims = Some 3"
  shows "\<exists>net. HighResNet_init T ic oc p act dims B N D bn inorm res pm dr = Inr net"
proof -
  have c: "''constant'' \<in> set (map fst PADDING_MODES)" by (simp add: PADDING_MODES_def)
  obtain first where first: "ConvolutionalBlock_init T ic (2 ^ p) 1 dims bn inorm pm False 3 True = Inr first"
    using assms ConvolutionalBlock_init_Inr [of T ic "2 ^ p" 1 dims bn inorm pm False 3 True] by auto
  obtain bs oc1 where bs: "dilation_blocks T [0..<nat D] (2 ^ p) (2 ^ p) None dims B N bn inorm res pm = Inr (bs, oc1)"
    using dilation_blocks_Inr [OF assms, of None "[0..<nat D]"] upt_hd [of "nat D"] by fastforce
  obtain dc where dc: "ConvolutionalBlock_init T (oc1 div 2) 80 1 dims bn inorm ''constant'' False 1 True = Inr dc"
    using assms c ConvolutionalBlock_init_Inr [of T "oc1 div 2" 80 1 dims bn inorm "''constant''" False 1 True] by auto
  obtain cl where cl: "ConvolutionalBlock_init T (if dr then 80 else oc1 div 2) oc 1 dims bn inorm pm False 1 False = Inr cl"
    using assms ConvolutionalBlock_init_Inr [of T "if dr then 80 else oc1 div 2" oc 1 dims bn inorm pm False 1 False] by auto
  from assms(3) first bs dc cl show ?thesis
    by (cases dr) (auto simp: HighResNet_init_def Let_def)
qed

lemma HighResNet_init_Inl:
  assumes "dims = Some 2 \<or> dims = Some 3"
      and "\<not> (pm \<in> set (map fst PADDING_MODES) \<and> \<not> (bn \<and> inorm))"
  shows "\<exists>msg. HighResNet_init T ic oc p act dims B N D bn inorm res pm dr = Inl (AssertionError msg)
           \<and> msg \<noteq> ''dimensions in (2, 3)''"
proof -
  have "\<not> (\<exists>self. ConvolutionalBlock_init T ic (2 ^ p) 1 dims bn inorm pm False 3 True = Inr self)"
    using assms ConvolutionalBlock_init_Inr [of T ic "2 ^ p" 1 dims bn inorm pm False 3 True] by auto
  then obtain e where e: "ConvolutionalBlock_init T ic (2 ^ p) 1 dims bn inorm pm False 3 True = Inl e"
    by (cases "ConvolutionalBlock_init T ic (2 ^ p) 1 dims bn inorm pm False 3 True") auto
  have "e \<noteq> UnboundLocalError ''padding_instance''"
    using e assms(1) ConvolutionalBlock_init_assertion [of T ic "2 ^ p" 1 dims bn inorm pm False 3 True] assms(2)
    by auto
  with ConvolutionalBlock_init_Inl [OF e]
  have "(\<exists>msg. e = AssertionError msg \<and> msg \<noteq> ''dimensions in (2, 3)'')" by auto
  with e assms(1) show ?thesis by (auto simp: HighResNet_init_def Let_def)
qed


lemma ResidualBlock_init_Inl_iff:
  "(\<exists>e. ResidualBlock_init T ic oc n d dims bn inorm res rt pm = Inl e)
   \<longleftrightarrow> (rt \<noteq> ''pad'' \<and> rt \<noteq> ''project'')
       \<or> (0 < n \<and> \<not> (pm \<in> set (map fst PADDING_MODES) \<and> \<not> (bn \<and> inorm)
                        \<and> (dims = Some 2 \<or> dims = Some 3)))"
proof (cases "rt \<noteq> ''pad'' \<and> rt \<noteq> ''project''")
  case True
  then show ?thesis by (simp add: ResidualBlock_init_def)
next
  case False
  let ?valid = "pm \<in> set (map fst PADDING_MODES) \<and> \<not> (bn \<and> inorm) \<and> (dims = Some 2 \<or> dims = Some 3)"
  have "(\<exists>e. conv_blocks T (nat n) ic oc d dims bn inorm pm = Inl e) \<longleftrightarrow> 0 < n \<and> \<not> ?valid"
  proof
    assume "\<exists>e. conv_blocks T (nat n) ic oc d dims bn inorm pm = Inl e"
    then obtain e where e: "conv_blocks T (nat n) ic oc d dims bn inorm pm = Inl e" ..
    from conv_blocks_Inl [OF e] have "0 < n" by simp
    moreover have "\<not> ?valid"
    proof
      assume ?valid
      then obtain bs where "conv_blocks T (nat n) ic oc d dims bn inorm pm = Inr bs"
        using conv_blocks_Inr [of pm bn inorm dims T "nat n" ic oc d] by blast
      with e show False by simp
    qed
    ultimately show "0 < n \<and> \<not> ?valid" ..
  next
    assume a: "0 < n \<and> \<not> ?valid"
    then obtain m where "nat n = Suc m" by (cases "nat n") auto
    with a show "\<exists>e. conv_blocks T (nat n) ic oc d dims bn inorm pm = Inl e"
      using conv_blocks_Suc_invalid [of pm bn inorm dims T m ic oc d] by simp
  qed
  moreover have "(\<exists>e. ResidualBlock_init T ic oc n d dims bn inorm res rt pm = Inl e)
      \<longleftrightarrow> (\<exists>e. conv_blocks T (nat n) ic oc d dims bn inorm pm = Inl e)"
    using False by (auto simp: ResidualBlock_init_def Let_def split: sum.splits)
  ultimately show ?thesis using False by blast
qed

lemma ResidualBlock_init_assertion:
  "ResidualBlock_init T ic oc n d dims bn inorm res rt pm
     = Inl (AssertionError ''residual_type in (pad, project)'')
   \<longleftrightarrow> rt \<noteq> ''pad'' \<and> rt \<noteq> ''project''"
proof (cases "rt \<noteq> ''pad'' \<and> rt \<noteq> ''project''")
  case True
  then show ?thesis by (simp add: ResidualBlock_init_def)
next
  case False
  have "ResidualBlock_init T ic oc n d dims bn inorm res rt pm
          \<noteq> Inl (AssertionError ''residual_type in (pad, project)'')"
  proof
    assume a: "ResidualBlock_init T ic oc n d dims bn inorm res rt pm
          = Inl (AssertionError ''residual_type in (pad, project)'')"
    with False have "conv_blocks T (nat n) ic oc d dims bn inorm pm
          = Inl (AssertionError ''residual_type in (pad, project)'')"
      by (auto simp: ResidualBlock_init_def Let_def split: sum.splits)
    from conv_blocks_Inl [OF this] show False by simp
  qed
  with False show ?thesis by simp
qed

lemma HighResNet_init_assertion:
  "HighResNet_init T ic oc p act dims B N D bn inorm res pm dr
     = Inl (AssertionError ''dimensions in (2, 3)'')
   \<longleftrightarrow> dims \<noteq> Some 2 \<and> dims \<noteq> Some 3"
proof (cases "dims \<noteq> Some 2 \<and> dims \<noteq> Some 3")
  case True
  then show ?thesis by (simp add: HighResNet_init_def)
next
  case False
  then have d: "dims = Some 2 \<or> dims = Some 3" by blast
  show ?thesis
  proof (cases "pm \<in> set (map fst PADDING_MODES) \<and> \<not> (bn \<and> inorm)")
    case True
    then show ?thesis
      using HighResNet_init_Inr [of pm bn inorm dims T ic oc p act B N D res dr] d by auto
  next
    case False
    then show ?thesis
      using HighResNet_init_Inl [OF d, of pm bn inorm T ic oc p act B N D res dr] d by auto
  qed
qed

lemma HighResNet_init_Inl_iff:
  "(\<exists>e. HighResNet_init T ic oc p act dims B N D bn inorm res pm dr = Inl e)
   \<longleftrightarrow> (dims \<noteq> Some 2 \<and> dims \<noteq> Some 3)
        \<or> \<not> (pm \<in> set (map fst PADDING_MODES) \<and> \<not> (bn \<and> inorm))"
proof (cases "dims \<noteq> Some 2 \<and> dims \<noteq> Some 3")
  case True
  then show ?thesis by (simp add: HighResNet_init_def)
next
  case False
  then have d: "dims = Some 2 \<or> dims = Some 3" by blast
  show ?thesis
  proof (cases "pm \<in> set (map fst PADDING_MODES) \<and> \<not> (bn \<and> inorm)")
    case True
    then show ?thesis
      using HighResNet_init_Inr [of pm bn inorm dims T ic oc p act B N D res dr] d by auto
  next
    case False
    then show ?thesis
      using HighResNet_init_Inl [OF d, of pm bn inorm T ic oc p act B N D res dr] d by auto
  qed
qed




text \<open>
  Claim C5. The constructor of \<open>HighResNet\<close> fails its assertion exactly when \<^verbatim>\<open>dimensions\<close>
  is neither 2 nor 3, so for the default \<open>None\<close>; the constructor of \<open>ResidualBlock\<close> fails
  its assertion exactly when \<^verbatim>\<open>residual_type\<close> is neither \<^verbatim>\<open>'pad'\<close> nor \<^verbatim>\<open>'project'\<close>.
  Neither constructor has another check of its own: where its assertion holds, it fails
  only where the constructor of a convolutional block that it creates fails.
\<close>

theorem constructor_assertions:
  "(HighResNet_init T ic oc p act dims B N D bn inorm res pm dr
        = Inl (AssertionError ''dimensions in (2, 3)'')
      \<longleftrightarrow> dims \<noteq> Some 2 \<and> dims \<noteq> Some 3)
   \<and> HighResNet_init T ic oc p act None B N D bn inorm res pm dr
        = Inl (AssertionError ''dimensions in (2, 3)'')
   \<and> (ResidualBlock_init T ic1 oc1 n d dims1 bn1 inorm1 res1 rt pm1
        = Inl (AssertionError ''residual_type in (pad, project)'')
      \<longleftrightarrow> rt \<noteq> ''pad'' \<and> rt \<noteq> ''project'')
   \<and> ((\<exists>e. HighResNet_init T ic oc p act dims B N D bn inorm res pm dr = Inl e)
      \<longleftrightarrow> (dims \<noteq> Some 2 \<and> dims \<noteq> Some 3) \<or> (bn \<and> inorm)
          \<or> (pm \<noteq> ''reflect'' \<and> pm \<noteq> ''replicate'' \<and> pm \<noteq> ''constant''))
   \<and> ((\<exists>e. ResidualBlock_init T ic1 oc1 n d dims1 bn1 inorm1 res1 rt pm1 = Inl e)
      \<longleftrightarrow> (rt \<noteq> ''pad'' \<and> rt \<noteq> ''project'')
          \<or> (0 < n \<and> ((bn1 \<and> inorm1)
                \<or> (pm1 \<noteq> ''reflect'' \<and> pm1 \<noteq> ''replicate'' \<and> pm1 \<noteq> ''constant'')
                \<or> (dims1 \<noteq> Some 2 \<and> dims1 \<noteq> Some 3))))"
proof (intro conjI)
  show "HighResNet_init T ic oc p act dims B N D bn inorm res pm dr
        = Inl (AssertionError ''dimensions in (2, 3)'')
      \<longleftrightarrow> dims \<noteq> Some 2 \<and> dims \<noteq> Some 3"
    by (rule HighResNet_init_assertion)
  show "HighResNet_init T ic oc p act None B N D bn inorm res pm dr
        = Inl (AssertionError ''dimensions in (2, 3)'')"
    by (simp add: HighResNet_init_def)
  show "ResidualBlock_init T ic1 oc1 n d dims1 bn1 inorm1 res1 rt pm1
        = Inl (AssertionError ''residual_type in (pad, project)'')
      \<longleftrightarrow> rt \<noteq> ''pad'' \<and> rt \<noteq> ''project''"
    by (rule ResidualBlock_init_assertion)
  show "(\<exists>e. HighResNet_init T ic oc p act dims B N D bn inorm res pm dr = Inl e)
      \<longleftrightarrow> (dims \<noteq> Some 2 \<and> dims \<noteq> Some 3) \<or> (bn \<and> inorm)
          \<or> (pm \<noteq> ''reflect'' \<and> pm \<noteq> ''replicate'' \<and> pm \<noteq> ''constant'')"
    unfolding HighResNet_init_Inl_iff padding_mode_keys by blast
  show "(\<exists>e. ResidualBlock_init T ic1 oc1 n d dims1 bn1 inorm1 res1 rt pm1 = Inl e)
      \<longleftrightarrow> (rt \<noteq> ''pad'' \<and> rt \<noteq> ''project'')
          \<or> (0 < n \<and> ((bn1 \<and> inorm1)
                \<or> (pm1 \<noteq> ''reflect'' \<and> pm1 \<noteq> ''replicate'' \<and> pm1 \<noteq> ''constant'')
                \<or> (dims1 \<noteq> Some 2 \<and> dims1 \<noteq> Some 3)))"
    unfolding ResidualBlock_init_Inl_iff padding_mode_keys by blast
qed

theorem constructor_assertions_witness:
  "HighResNet_init shape_torch 1 1 4 ''sigmoid'' None 2 3 3 True False True ''constant'' False
        = Inl (AssertionError ''dimensions in (2, 3)'')
   \<and> ResidualBlock_init shape_torch 1 2 2 1 (Some 3) True False True ''zero'' ''constant''
        = Inl (AssertionError ''residual_type in (pad, project)'')
   \<and> (\<nexists>e. HighResNet_init shape_torch 1 1 4 ''sigmoid'' (Some 3) 2 3 3 True False True ''constant'' False = Inl e)"
  using constructor_assertions [of shape_torch 1 1 4 "''sigmoid''" None 2 3 3 True False True "''constant''" False 1 2 2 1 "Some 3" True False True "''zero''" "''constant''"]
    constructor_assertions [of shape_torch 1 1 4 "''sigmoid''" "Some 3" 2 3 3 True False True "''constant''" False 1 2 2 1 "Some 3" True False True "''zero''" "''constant''"]
  by simp

section \<open>Forward computation: results and what they leave unchanged\<close>

lemma HighResNet_init_attributes:
  assumes "HighResNet_init T ic oc p act dims B N D bn inorm res pm dr = Inr net"
  shows "HighResNet.self_in_channels net = ic"
    and "HighResNet.self_out_channels net = oc"
    and "self_layers_per_residual_block net = B"
    and "self_residual_blocks_per_dilation net = N"
    and "self_dilations net = D"
    and "self_outputs_activation net =
           (if act = ''sigmoid'' then Some (new T Sigmoid)
            else if act = ''softmax'' then Some (new T Softmax)
            else if act = ''none'' then Some (new T Identity)
            else None)"
  using assms
  by (auto simp: HighResNet_init_def Let_def split: if_splits sum.splits prod.splits)

text \<open>
  Claim C10. For a value of \<^verbatim>\<open>outputs_activation\<close> other than \<^verbatim>\<open>'sigmoid'\<close>, \<^verbatim>\<open>'softmax'\<close> and
  \<^verbatim>\<open>'none'\<close> the constructor of \<open>HighResNet\<close> returns a network (its other arguments
  passing the checks of C4 and C5) on which the attribute \<^verbatim>\<open>outputs_activation\<close> was never
  set, and every call of \<^verbatim>\<open>forward\<close> on it fails with an attribute error and changes
  nothing.
\<close>

theorem missing_outputs_activation:
  assumes "act \<noteq> ''sigmoid''" "act \<noteq> ''softmax''" "act \<noteq> ''none''"
      and "dims = Some 2 \<or> dims = Some 3"
      and "pm = ''reflect'' \<or> pm = ''replicate'' \<or> pm = ''constant''"
      and "\<not> (bn \<and> inorm)"
  shows "\<exists>net. HighResNet_init T ic oc p act dims B N D bn inorm res pm dr = Inr net
           \<and> self_outputs_activation net = None
           \<and> (\<forall>x. HighResNet_forward T net x = (Inl (AttributeError ''outputs_activation''), net))"
proof -
  from assms(5) have "pm \<in> set (map fst PADDING_MODES)" unfolding padding_mode_keys .
  then obtain net where net: "HighResNet_init T ic oc p act dims B N D bn inorm res pm dr = Inr net"
    using HighResNet_init_Inr [of pm bn inorm dims T ic oc p act B N D res dr] assms(4,6) by blast
  from HighResNet_init_attributes(6) [OF net] assms(1-3)
  have none: "self_outputs_activation net = None" by simp
  then have "\<forall>x. HighResNet_forward T net x = (Inl (AttributeError ''outputs_activation''), net)"
    by (simp add: HighResNet_forward_def)
  with net none show ?thesis by blast
qed

theorem missing_outputs_activation_witness:
  "\<exists>net. HighResNet_init shape_torch 1 1 0 ''relu'' (Some 2) 1 1 1 True False True ''constant'' False = Inr net
     \<and> self_outputs_activation net = None
     \<and> (\<forall>x. HighResNet_forward shape_torch net x = (Inl (AttributeError ''outputs_activation''), net))"
  using missing_outputs_activation [of "''relu''" "Some 2" "''constant''" True False shape_torch 1 1 0 1 1 1 True False]
  by simp


lemma layer_forward_structure:
  "layer_structure (snd (layer_forward T l x)) = layer_structure l"
  by (cases l) (auto split: prod.splits)

lemma Sequential_forward_structure:
  assumes "\<And>m x. m \<in> set ms \<Longrightarrow> st (snd (f m x)) = st m"
  shows "map st (snd (Sequential_forward f ms x)) = map st ms"
  using assms
proof (induction ms arbitrary: x)
  case Nil
  show ?case by simp
next
  case (Cons m ms)
  have m: "st (snd (f m x)) = st m" using Cons.prems by simp
  have ms: "\<And>y. map st (snd (Sequential_forward f ms y)) = map st ms"
    using Cons.IH Cons.prems by simp
  show ?case
  proof (cases "f m x")
    case (Pair r m1)
    with m have m1: "st m1 = st m" by simp
    show ?thesis
    proof (cases r)
      case (Inl e)
      with Pair m1 show ?thesis by simp
    next
      case (Inr y)
      with Pair m1 ms [of y] show ?thesis by (auto split: prod.splits)
    qed
  qed
qed

lemma ConvolutionalBlock_forward_structure:
  "ConvolutionalBlock_structure (snd (ConvolutionalBlock_forward T b x)) = ConvolutionalBlock_structure b"
proof -
  have "map layer_structure (snd (Sequential_forward (layer_forward T) (self_convolutional_block b) x))
        = map layer_structure (self_convolutional_block b)"
    by (rule Sequential_forward_structure) (rule layer_forward_structure)
  then show ?thesis
    by (auto simp: ConvolutionalBlock_forward_def ConvolutionalBlock_structure_def split: prod.splits)
qed

lemma ResidualBlock_forward_structure:
  "ResidualBlock_structure (snd (ResidualBlock_forward T b x)) = ResidualBlock_structure b"
proof -
  have s: "map ConvolutionalBlock_structure
           (snd (Sequential_forward (ConvolutionalBlock_forward T) (self_residual_block b) x))
        = map ConvolutionalBlock_structure (self_residual_block b)"
    by (rule Sequential_forward_structure) (rule ConvolutionalBlock_forward_structure)
  have l: "\<And>l. layer_structure (snd (layer_forward T l x)) = layer_structure l"
    by (rule layer_forward_structure)
  obtain r bs where seq: "Sequential_forward (ConvolutionalBlock_forward T) (self_residual_block b) x = (r, bs)"
    by (cases "Sequential_forward (ConvolutionalBlock_forward T) (self_residual_block b) x")
  with s have bs: "map ConvolutionalBlock_structure bs = map ConvolutionalBlock_structure (self_residual_block b)"
    by simp
  show ?thesis
  proof (cases r)
    case (Inl e)
    with seq bs show ?thesis
      by (simp add: ResidualBlock_forward_def ResidualBlock_structure_def)
  next
    case (Inr out)
    show ?thesis
    proof (cases "self_change_dim_layer b")
      case None
      with seq Inr bs show ?thesis
        by (simp add: ResidualBlock_forward_def ResidualBlock_structure_def Let_def
                 split: sum.splits)
    next
      case (Some l0)
      obtain r0 l1 where lf: "layer_forward T l0 x = (r0, l1)" by (cases "layer_forward T l0 x")
      with l [of l0] have "layer_structure l1 = layer_structure l0" by simp
      with seq Inr bs Some lf show ?thesis
        by (simp add: ResidualBlock_forward_def ResidualBlock_structure_def Let_def
                 split: sum.splits)
    qed
  qed
qed

lemma DilationBlock_forward_structure:
  "DilationBlock_structure (snd (DilationBlock_forward T b x)) = DilationBlock_structure b"
proof -
  have "map ResidualBlock_structure
           (snd (Sequential_forward (ResidualBlock_forward T) (self_dilation_block b) x))
        = map ResidualBlock_structure (self_dilation_block b)"
    by (rule Sequential_forward_structure) (rule ResidualBlock_forward_structure)
  then show ?thesis
    by (auto simp: DilationBlock_forward_def DilationBlock_structure_def split: prod.splits)
qed

lemma block_forward_structure:
  "block_structure (snd (block_forward T b x)) = block_structure b"
proof (cases b)
  case (Block_Conv c)
  with ConvolutionalBlock_forward_structure [of T c x] show ?thesis by (auto split: prod.splits)
next
  case (Block_Dilation c)
  with DilationBlock_forward_structure [of T c x] show ?thesis by (auto split: prod.splits)
next
  case (Block_Layer l)
  with layer_forward_structure [of T l x] show ?thesis by (auto split: prod.splits)
qed

text \<open>
  Claim C6. A call of \<^verbatim>\<open>forward\<close>, whatever it returns or raises, leaves the attributes
  \<^verbatim>\<open>in_channels\<close>, \<^verbatim>\<open>out_channels\<close>, \<^verbatim>\<open>layers_per_residual_block\<close>,
  \<^verbatim>\<open>residual_blocks_per_dilation\<close> and \<^verbatim>\<open>dilations\<close> as they were, and leaves the structure
  of the output activation and of every block as it was: only the state that the
  framework keeps inside its layers may differ.
\<close>

theorem HighResNet_forward_frame:
  "HighResNet.self_in_channels (snd (HighResNet_forward T net x)) = HighResNet.self_in_channels net
   \<and> HighResNet.self_out_channels (snd (HighResNet_forward T net x)) = HighResNet.self_out_channels net
   \<and> self_layers_per_residual_block (snd (HighResNet_forward T net x)) = self_layers_per_residual_block net
   \<and> self_residual_blocks_per_dilation (snd (HighResNet_forward T net x)) = self_residual_blocks_per_dilation net
   \<and> self_dilations (snd (HighResNet_forward T net x)) = self_dilations net
   \<and> map_option layer_structure (self_outputs_activation (snd (HighResNet_forward T net x)))
       = map_option layer_structure (self_outputs_activation net)
   \<and> map block_structure (self_block (snd (HighResNet_forward T net x)))
       = map block_structure (self_block net)"
proof (cases "self_outputs_activation net")
  case None
  then show ?thesis by (simp add: HighResNet_forward_def)
next
  case (Some a)
  have s: "map block_structure (snd (Sequential_forward (block_forward T) (self_block net) x))
        = map block_structure (self_block net)"
    by (rule Sequential_forward_structure) (rule block_forward_structure)
  obtain r bs where seq: "Sequential_forward (block_forward T) (self_block net) x = (r, bs)"
    by (cases "Sequential_forward (block_forward T) (self_block net) x")
  with s have bs: "map block_structure bs = map block_structure (self_block net)" by simp
  show ?thesis
  proof (cases r)
    case (Inl e)
    with Some seq bs show ?thesis by (simp add: HighResNet_forward_def)
  next
    case (Inr y)
    obtain r1 a1 where lf: "layer_forward T a y = (r1, a1)" by (cases "layer_forward T a y")
    with layer_forward_structure [of T a y] have "layer_structure a1 = layer_structure a" by simp
    with Some seq bs Inr lf show ?thesis by (simp add: HighResNet_forward_def)
  qed
qed



theorem HighResNet_forward_frame_witness:
  "\<exists>net. HighResNet_init shape_torch 1 1 0 ''softmax'' (Some 2) 1 1 1 True False True ''constant'' False = Inr net
     \<and> self_dilations (snd (HighResNet_forward shape_torch net [1, 1, 4, 4])) = self_dilations net
     \<and> map block_structure (self_block (snd (HighResNet_forward shape_torch net [1, 1, 4, 4])))
         = map block_structure (self_block net)"
proof -
  have "''constant'' \<in> set (map fst PADDING_MODES)" unfolding padding_mode_keys by simp
  then obtain net where net:
    "HighResNet_init shape_torch 1 1 0 ''softmax'' (Some 2) 1 1 1 True False True ''constant'' False = Inr net"
    using HighResNet_init_Inr [of "''constant''" True False "Some 2" shape_torch 1 1 0 "''softmax''" 1 1 1 True False]
    by auto
  from HighResNet_forward_frame [of shape_torch net "[1, 1, 4, 4]"] net show ?thesis by blast
qed

lemma ResidualBlock_init_attributes:
  assumes "ResidualBlock_init T ic oc n d dims bn inorm res rt pm = Inr rb"
  shows "self_residual rb = res"
    and "self_change_dimension rb = (ic \<noteq> oc)"
    and "self_residual_type rb = rt"
    and "self_dimensions rb = dims"
    and "self_change_dim_layer rb =
           (if ic \<noteq> oc \<and> rt = ''project''
            then Some (new T (conv_class dims ic oc 1 d False)) else None)"
    and "rt = ''pad'' \<or> rt = ''project''"
    and "conv_blocks T (nat n) ic oc d dims bn inorm pm = Inr (self_residual_block rb)"
  using assms
  by (auto simp: ResidualBlock_init_def Let_def split: if_splits sum.splits)



section \<open>Parameter count and receptive field of the constructed network\<close>

lemma int64_id: "- (2 ^ 63) \<le> v \<Longrightarrow> v < 2 ^ 63 \<Longrightarrow> int64 v = v"
  by (simp add: int64_def)

lemma mod_shift_add: "(a + ((b + c) mod m - c) + c) mod m = (a + b + c) mod (m::int)"
proof -
  have "(a + ((b + c) mod m - c) + c) mod m = (a + (b + c) mod m) mod m" by simp
  also have "\<dots> = (a + (b + c)) mod m" by (rule mod_add_right_eq)
  finally show ?thesis by (simp add: add.assoc)
qed


lemma int64_add_right: "int64 (a + int64 b) = int64 (a + b)"
  unfolding int64_def using mod_shift_add [of a b "2 ^ 63" "2 ^ 64"] by simp

lemma int64_add_left: "int64 (int64 a + b) = int64 (a + b)"
  using int64_add_right [of b a] by (simp add: add.commute)



lemma foldl_int64:
  "foldl (\<lambda>acc p. int64 (acc + int64 (g p))) (int64 a) ps = int64 (a + sum_list (map g ps))"
proof (induction ps arbitrary: a)
  case Nil
  show ?case by simp
next
  case (Cons p ps)
  have "int64 (int64 a + int64 (g p)) = int64 (a + g p)"
    by (simp add: int64_add_left int64_add_right)
  with Cons.IH [of "a + g p"] show ?case by (simp add: add.assoc)
qed

lemma num_parameters_int64:
  "num_parameters net = int64 (sum_list (map prod_list (HighResNet_parameters net)))"
proof -
  have "int64 0 = 0" by (simp add: int64_def)
  with foldl_int64 [of prod_list 0 "HighResNet_parameters net"] show ?thesis
    by (simp add: num_parameters_def)
qed

lemma ConvolutionalBlock_init_layers:
  assumes "ConvolutionalBlock_init T ic oc d dims bn inorm pm pre k act = Inr cb"
  shows "self_convolutional_block cb =
           (if pre then (if bn \<or> inorm then [new T (norm_class dims inorm ic)] else [])
                        @ (if act then [new T ReLU] else [])
            else [])
           @ (if 1 < k
              then [if dims = Some 2
                    then new T ((if pm = ''reflect'' then ReflectionPad2d
                                 else if pm = ''replicate'' then ReplicationPad2d
                                 else ZeroPad2d) d)
                    else Pad3dLayer \<lparr>self_pad = replicate 6 d, self_mode = pm\<rparr>]
              else [])
           @ [new T (conv_class dims ic oc k d (\<not> (inorm \<or> bn)))]
           @ (if \<not> pre then (if bn \<or> inorm then [new T (norm_class dims inorm oc)] else [])
                           @ (if act then [new T ReLU] else [])
              else [])"
proof -
  from assms have ok: "pm \<in> set (map fst PADDING_MODES)" "\<not> (bn \<and> inorm)"
      "dims = Some 2 \<or> dims = Some 3 \<or> k \<le> 1"
    using ConvolutionalBlock_init_Inr [of T ic oc d dims bn inorm pm pre k act] by auto
  consider "dims = Some 2" | "dims = Some 3" | "dims \<noteq> Some 2" "dims \<noteq> Some 3" "k \<le> 1"
    using ok(3) by fastforce
  then show ?thesis
  proof cases
    case 1
    with ok assms show ?thesis
      by (auto simp: ConvolutionalBlock_init_def new_padding_instance_2d Let_def split: if_splits)
  next
    case 2
    with ok assms show ?thesis
      by (auto simp: ConvolutionalBlock_init_def new_padding_instance_3d Let_def split: if_splits)
  next
    case 3
    with ok assms show ?thesis
      by (auto simp: ConvolutionalBlock_init_def new_padding_instance_other Let_def split: if_splits)
  qed
qed

lemma ConvolutionalBlock_init_convolutions:
  assumes "ConvolutionalBlock_init T ic oc d dims bn inorm pm pre k act = Inr cb"
  shows "ConvolutionalBlock_convolutions cb = [(k, d)]"
    and "ConvolutionalBlock_widening cb = (k - 1) * d"
  unfolding ConvolutionalBlock_convolutions_def ConvolutionalBlock_widening_def
    ConvolutionalBlock_init_layers [OF assms]
  by (simp_all add: new_def conv_class_def norm_class_def)

lemma ConvolutionalBlock_init_numel:
  assumes "ConvolutionalBlock_init T ic oc d dims bn inorm pm pre k act = Inr cb"
  shows "numel (ConvolutionalBlock_parameters cb) = conv_block_count dims bn inorm pre ic oc k"
proof -
  from assms have "\<not> (bn \<and> inorm)"
    using ConvolutionalBlock_init_Inr [of T ic oc d dims bn inorm pm pre k act] by auto
  then show ?thesis
    unfolding ConvolutionalBlock_parameters_def ConvolutionalBlock_init_layers [OF assms]
    by (auto simp: new_def conv_class_def norm_class_def numel_def conv_block_count_def
          power2_eq_square power3_eq_cube)
qed


lemma numel_append: "numel (xs @ ys) = numel xs + numel ys"
  by (simp add: numel_def)

lemma numel_concat: "numel (concat xss) = sum_list (map numel xss)"
  by (induction xss) (simp_all add: numel_def)

lemma chain_count_Suc: "chain_count f (Suc n) i o0 = f i o0 + chain_count f n o0 o0"
  by (cases n) (simp_all add: chain_count_def algebra_simps)

lemma conv_blocks_topology:
  assumes "conv_blocks T n ic oc d dims bn inorm pm = Inr bs"
  shows "concat (map ConvolutionalBlock_convolutions bs) = replicate n (3, d)
         \<and> sum_list (map ConvolutionalBlock_widening bs) = int n * (2 * d)
         \<and> sum_list (map (\<lambda>b. numel (ConvolutionalBlock_parameters b)) bs)
             = chain_count (\<lambda>i o0. conv_block_count dims bn inorm True i o0 3) n ic oc"
  using assms
proof (induction n arbitrary: ic bs)
  case 0
  then show ?case by (simp add: chain_count_def)
next
  case (Suc n)
  from Suc.prems obtain b rest where
    b: "ConvolutionalBlock_init T ic oc d dims bn inorm pm True 3 True = Inr b" and
    rest: "conv_blocks T n oc oc d dims bn inorm pm = Inr rest" and
    bs: "bs = b # rest"
    by (auto split: sum.splits)
  from Suc.IH [OF rest] ConvolutionalBlock_init_convolutions [OF b]
    ConvolutionalBlock_init_numel [OF b] bs
  show ?case by (simp add: chain_count_Suc algebra_simps)
qed

lemma ResidualBlock_init_topology:
  assumes "ResidualBlock_init T ic oc n d dims bn inorm res ''pad'' pm = Inr rb"
  shows "ResidualBlock_convolutions rb = replicate (nat n) (3, d)"
    and "0 \<le> d \<Longrightarrow> ResidualBlock_widening rb = int (nat n) * (2 * d)"
    and "numel (ResidualBlock_parameters rb)
           = chain_count (\<lambda>i o0. conv_block_count dims bn inorm True i o0 3) (nat n) ic oc"
proof -
  note a = ResidualBlock_init_attributes [OF assms]
  note t = conv_blocks_topology [OF a(7)]
  from a(5) have none: "self_change_dim_layer rb = None" by simp
  show "ResidualBlock_convolutions rb = replicate (nat n) (3, d)"
    using t by (simp add: ResidualBlock_convolutions_def)
  show "numel (ResidualBlock_parameters rb)
           = chain_count (\<lambda>i o0. conv_block_count dims bn inorm True i o0 3) (nat n) ic oc"
    using t none by (simp add: ResidualBlock_parameters_def numel_concat comp_def)
  show "ResidualBlock_widening rb = int (nat n) * (2 * d)" if "0 \<le> d"
    using t none that by (simp add: ResidualBlock_widening_def Let_def)
qed

lemma residual_blocks_topology:
  assumes "residual_blocks T n ic oc B d dims bn inorm res pm = Inr bs" and "0 \<le> d"
  shows "concat (map ResidualBlock_convolutions bs) = replicate (n * nat B) (3, d)
         \<and> sum_list (map ResidualBlock_widening bs) = int n * (int (nat B) * (2 * d))
         \<and> sum_list (map (\<lambda>b. numel (ResidualBlock_parameters b)) bs)
             = chain_count (chain_count (\<lambda>i o0. conv_block_count dims bn inorm True i o0 3) (nat B))
                 n ic oc"
  using assms(1)
proof (induction n arbitrary: ic bs)
  case 0
  then show ?case by (simp add: chain_count_def)
next
  case (Suc n)
  from Suc.prems obtain b rest where
    b: "ResidualBlock_init T ic oc B d dims bn inorm res ''pad'' pm = Inr b" and
    rest: "residual_blocks T n oc oc B d dims bn inorm res pm = Inr rest" and
    bs: "bs = b # rest"
    by (auto split: sum.splits)
  from Suc.IH [OF rest] ResidualBlock_init_topology [OF b] assms(2) bs
  show ?case by (simp add: chain_count_Suc algebra_simps replicate_add)
qed

lemma DilationBlock_init_topology:
  assumes "DilationBlock_init T ic oc d dims B N bn inorm res pm = Inr b" and "0 \<le> d"
  shows "DilationBlock_convolutions b = replicate (nat N * nat B) (3, d)"
    and "DilationBlock_widening b = int (nat N) * (int (nat B) * (2 * d))"
    and "numel (DilationBlock_parameters b)
           = chain_count (chain_count (\<lambda>i o0. conv_block_count dims bn inorm True i o0 3) (nat B))
               (nat N) ic oc"
    and "DilationBlock.self_out_channels b = oc"
proof -
  from assms(1) obtain bs where
    bs: "residual_blocks T (nat N) ic oc B d dims bn inorm res pm = Inr bs" and
    b: "b = \<lparr>DilationBlock.self_in_channels = ic, DilationBlock.self_out_channels = oc,
            self_dilation_block = bs\<rparr>"
    by (auto simp: DilationBlock_init_def split: sum.splits)
  note t = residual_blocks_topology [OF bs assms(2)]
  show "DilationBlock_convolutions b = replicate (nat N * nat B) (3, d)"
    using t b by (simp add: DilationBlock_convolutions_def)
  show "DilationBlock_widening b = int (nat N) * (int (nat B) * (2 * d))"
    using t b by (simp add: DilationBlock_widening_def)
  show "numel (DilationBlock_parameters b)
           = chain_count (chain_count (\<lambda>i o0. conv_block_count dims bn inorm True i o0 3) (nat B))
               (nat N) ic oc"
    using t b by (simp add: DilationBlock_parameters_def numel_concat comp_def)
  show "DilationBlock.self_out_channels b = oc" using b by simp
qed


lemma dilation_blocks_topology:
  assumes "dilation_blocks T [k..<k + m] ic oc db dims B N bn inorm res pm = Inr (blocks, oc1)"
      and "oc = c0 * 2 ^ k"
      and "k = 0 \<Longrightarrow> ic = c0"
      and "0 < k \<Longrightarrow> \<exists>b. db = Some b \<and> DilationBlock.self_out_channels b = c0 * 2 ^ (k - 1)"
  shows "map block_convolutions blocks = map (\<lambda>i. replicate (nat N * nat B) (3, 2 ^ i)) [k..<k + m]
         \<and> map block_widening blocks
             = map (\<lambda>i. int (nat N) * (int (nat B) * (2 * 2 ^ i))) [k..<k + m]
         \<and> map (\<lambda>b. numel (block_parameters b)) blocks
             = map (\<lambda>i. chain_count
                          (chain_count (\<lambda>i o0. conv_block_count dims bn inorm True i o0 3) (nat B))
                          (nat N) (if i = 0 then c0 else c0 * 2 ^ (i - 1)) (c0 * 2 ^ i))
                 [k..<k + m]
         \<and> oc1 = c0 * 2 ^ (k + m)"
  using assms
proof (induction m arbitrary: k ic oc db blocks oc1)
  case 0
  then show ?case by simp
next
  case (Suc m)
  define ic1 where "ic1 = (if k = 0 then c0 else c0 * 2 ^ (k - 1))"
  have upt: "[k..<k + Suc m] = k # [Suc k..<Suc k + m]" by (simp add: upt_conv_Cons)
  have in1: "(if 1 \<le> k
            then (case db of None \<Rightarrow> Inl (AttributeError ''out_channels'')
                  | Some b \<Rightarrow> Inr (DilationBlock.self_out_channels b))
            else Inr ic) = Inr ic1"
    using Suc.prems(3,4) by (auto simp: ic1_def)
  from Suc.prems(1) obtain b rest where
    b: "DilationBlock_init T ic1 oc (2 ^ k) dims B N bn inorm res pm = Inr b" and
    rest: "dilation_blocks T [Suc k..<Suc k + m] ic1 (oc * 2) (Some b) dims B N bn inorm res pm
             = Inr (rest, oc1)" and
    blocks: "blocks = Block_Dilation b # rest"
    unfolding upt dilation_blocks.simps in1 by (auto simp: Let_def split: sum.splits)
  have d: "(0::int) \<le> 2 ^ k" by simp
  note tb = DilationBlock_init_topology [OF b d]
  have "oc * 2 = c0 * 2 ^ Suc k" using Suc.prems(2) by simp
  moreover have "\<exists>b1. Some b = Some b1 \<and> DilationBlock.self_out_channels b1 = c0 * 2 ^ (Suc k - 1)"
    using tb(4) Suc.prems(2) by simp
  ultimately have IH: "map block_convolutions rest
        = map (\<lambda>i. replicate (nat N * nat B) (3, 2 ^ i)) [Suc k..<Suc k + m]
      \<and> map block_widening rest
        = map (\<lambda>i. int (nat N) * (int (nat B) * (2 * 2 ^ i))) [Suc k..<Suc k + m]
      \<and> map (\<lambda>b. numel (block_parameters b)) rest
        = map (\<lambda>i. chain_count
                          (chain_count (\<lambda>i o0. conv_block_count dims bn inorm True i o0 3) (nat B))
                          (nat N) (if i = 0 then c0 else c0 * 2 ^ (i - 1)) (c0 * 2 ^ i))
                 [Suc k..<Suc k + m]
      \<and> oc1 = c0 * 2 ^ (Suc k + m)"
    using Suc.IH [OF rest] by simp
  show ?case
    unfolding upt using IH tb blocks Suc.prems(2) by (simp add: ic1_def)
qed

lemma HighResNet_init_topology:
  assumes "HighResNet_init T ic oc p act dims B N D bn inorm res pm dr = Inr net"
  shows "HighResNet_convolutions net
           = [(3, 1)] @ concat (map (\<lambda>d. replicate (nat N * nat B) (3, 2 ^ d)) [0..<nat D])
             @ (if dr then [(1, 1)] else []) @ [(1, 1)]"
    and "topology_receptive_field net
           = 3 + (\<Sum>d\<leftarrow>[0..<nat D]. int (nat N) * (int (nat B) * (2 * 2 ^ d)))"
    and "numel (HighResNet_parameters net) = configuration_count ic oc p dims B N D bn inorm dr"
proof -
  from assms obtain first blocks1 oc1 blocks2 oc3 classifier where
    first: "ConvolutionalBlock_init T ic (2 ^ p) 1 dims bn inorm pm False 3 True = Inr first" and
    blocks1: "dilation_blocks T [0..<0 + nat D] (2 ^ p) (2 ^ p) None dims B N bn inorm res pm
                = Inr (blocks1, oc1)" and
    blocks2: "(if dr
               then (case ConvolutionalBlock_init T (oc1 div 2) 80 1 dims bn inorm ''constant''
                            False 1 True of
                       Inl e \<Rightarrow> Inl e
                     | Inr dropout_conv_block \<Rightarrow>
                         Inr ([Block_Conv dropout_conv_block, Block_Layer (new T Dropout3d)], 80))
               else Inr ([], oc1 div 2)) = Inr (blocks2, oc3)" and
    classifier: "ConvolutionalBlock_init T oc3 oc 1 dims bn inorm pm False 1 False = Inr classifier" and
    block: "self_block net = [Block_Conv first] @ blocks1 @ blocks2 @ [Block_Conv classifier]" and
    act: "self_outputs_activation net =
           (if act = ''sigmoid'' then Some (new T Sigmoid)
            else if act = ''softmax'' then Some (new T Softmax)
            else if act = ''none'' then Some (new T Identity)
            else None)"
    by (auto simp: HighResNet_init_def Let_def split: if_splits sum.splits prod.splits)
  have t1: "map block_convolutions blocks1 = map (\<lambda>i. replicate (nat N * nat B) (3, 2 ^ i)) [0..<0 + nat D]
         \<and> map block_widening blocks1
             = map (\<lambda>i. int (nat N) * (int (nat B) * (2 * 2 ^ i))) [0..<0 + nat D]
         \<and> map (\<lambda>b. numel (block_parameters b)) blocks1
             = map (\<lambda>i. chain_count
                          (chain_count (\<lambda>i o0. conv_block_count dims bn inorm True i o0 3) (nat B))
                          (nat N) (if i = 0 then 2 ^ p else 2 ^ p * 2 ^ (i - 1)) (2 ^ p * 2 ^ i))
                 [0..<0 + nat D]
         \<and> oc1 = 2 ^ p * 2 ^ (0 + nat D)"
    by (rule dilation_blocks_topology [OF blocks1]) simp_all
  have t2: "concat (map block_convolutions blocks2) = (if dr then [(1, 1)] else [])
          \<and> sum_list (map block_widening blocks2) = 0
          \<and> sum_list (map (\<lambda>b. numel (block_parameters b)) blocks2)
              = (if dr then conv_block_count dims bn inorm False (oc1 div 2) 80 1 else 0)
          \<and> oc3 = (if dr then 80 else oc1 div 2)"
  proof (cases dr)
    case False
    with blocks2 show ?thesis by simp
  next
    case True
    with blocks2 obtain dc where
      dc: "ConvolutionalBlock_init T (oc1 div 2) 80 1 dims bn inorm ''constant'' False 1 True = Inr dc"
      and b2: "blocks2 = [Block_Conv dc, Block_Layer (new T Dropout3d)]" and "oc3 = 80"
      by (auto split: sum.splits)
    with True ConvolutionalBlock_init_convolutions [OF dc] ConvolutionalBlock_init_numel [OF dc]
    show ?thesis by (simp add: new_def numel_def)
  qed
  note tf = ConvolutionalBlock_init_convolutions [OF first] ConvolutionalBlock_init_numel [OF first]
  note tc = ConvolutionalBlock_init_convolutions [OF classifier] ConvolutionalBlock_init_numel [OF classifier]
  show "HighResNet_convolutions net
           = [(3, 1)] @ concat (map (\<lambda>d. replicate (nat N * nat B) (3, 2 ^ d)) [0..<nat D])
             @ (if dr then [(1, 1)] else []) @ [(1, 1)]"
    using block tf tc t1 t2 by (simp add: HighResNet_convolutions_def)
  show "topology_receptive_field net
           = 3 + (\<Sum>d\<leftarrow>[0..<nat D]. int (nat N) * (int (nat B) * (2 * 2 ^ d)))"
    using block tf tc t1 t2 by (simp add: topology_receptive_field_def)
  have "numel (case self_outputs_activation net of None \<Rightarrow> [] | Some l \<Rightarrow> layer_parameters l) = 0"
    using act by (simp add: new_def numel_def)
  then show "numel (HighResNet_parameters net) = configuration_count ic oc p dims B N D bn inorm dr"
    using block tf tc t1 t2
    by (simp add: HighResNet_parameters_def configuration_count_def numel_append numel_concat
          comp_def Let_def)
qed


text \<open>
  Claim C2. On every constructed network whose parameter count fits a signed 64-bit
  integer, \<^verbatim>\<open>num_parameters\<close> is the sum, over the learned tensors of the network, of the
  product of the dimensions of each, and it is the count of the topology that the
  configuration describes.
\<close>

theorem num_parameters_counts_topology:
  assumes "HighResNet_init T ic oc p act dims B N D bn inorm res pm dr = Inr net"
      and "- (2 ^ 63) \<le> configuration_count ic oc p dims B N D bn inorm dr"
      and "configuration_count ic oc p dims B N D bn inorm dr < 2 ^ 63"
  shows "num_parameters net = (\<Sum>shape\<leftarrow>HighResNet_parameters net. prod_list shape)
         \<and> num_parameters net = configuration_count ic oc p dims B N D bn inorm dr"
proof -
  have "numel (HighResNet_parameters net) = configuration_count ic oc p dims B N D bn inorm dr"
    by (rule HighResNet_init_topology(3) [OF assms(1)])
  moreover have "num_parameters net = int64 (numel (HighResNet_parameters net))"
    by (simp add: num_parameters_int64 numel_def)
  ultimately show ?thesis using assms(2,3) by (simp add: int64_id numel_def)
qed

theorem num_parameters_counts_topology_witness:
  "\<exists>net. HighResNet_init shape_torch 1 3 4 ''softmax'' (Some 3) 2 3 3 True False True ''constant'' False = Inr net
     \<and> num_parameters net = (\<Sum>shape\<leftarrow>HighResNet_parameters net. prod_list shape)
     \<and> num_parameters net = 803702"
proof -
  have "''constant'' \<in> set (map fst PADDING_MODES)" unfolding padding_mode_keys by simp
  then obtain net where net:
    "HighResNet_init shape_torch 1 3 4 ''softmax'' (Some 3) 2 3 3 True False True ''constant'' False = Inr net"
    using HighResNet_init_Inr [of "''constant''" True False "Some 3" shape_torch 1 3 4 "''softmax''" 2 3 3 True False]
    by auto
  have c: "configuration_count 1 3 4 (Some 3) 2 3 3 True False False = 803702" by code_simp
  from num_parameters_counts_topology [OF net] c net show ?thesis by simp
qed




section \<open>Shapes through the network\<close>

lemma shape_torch_shapes: "torch_shapes shape_torch"
  unfolding torch_shapes_def
  by (auto simp: shape_torch_def shape_call_def shape_F_pad_def shape_new_zeros_def
        shape_cat_def shape_add_def split: option.splits if_splits)

lemma torch_shapes_call:
  "torch_shapes T \<Longrightarrow> call T m b x = (Inr y, b1) \<Longrightarrow> nn_out_shape m (shape T x) = Some s
     \<Longrightarrow> shape T y = s"
  unfolding torch_shapes_def by blast

lemma torch_shapes_F_pad:
  "torch_shapes T \<Longrightarrow> F_pad T x pads mode = Inr y \<Longrightarrow> shape T y = pad_out_shape (shape T x) pads"
  unfolding torch_shapes_def by blast


lemma torch_shapes_cat:
  "torch_shapes T \<Longrightarrow> cat T xs dim = Inr z
     \<Longrightarrow> cat_out_shape (map (shape T) xs) dim = Some (shape T z)"
  unfolding torch_shapes_def by blast

lemma torch_shapes_add:
  "torch_shapes T \<Longrightarrow> add T x y = Inr z
     \<Longrightarrow> broadcast_shapes (shape T x) (shape T y) = Some (shape T z)"
  unfolding torch_shapes_def by blast

lemma keeps_spatialI:
  assumes "\<And>x y m1. f m x = (Inr y, m1) \<Longrightarrow> length (shape T x) = r
             \<Longrightarrow> length (shape T y) = r \<and> drop 2 (shape T y) = drop 2 (shape T x)"
  shows "keeps_spatial T r f m"
  using assms unfolding keeps_spatial_def by blast

lemma keeps_spatialD:
  assumes "keeps_spatial T r f m" "f m x = (Inr y, m1)" "length (shape T x) = r"
  shows "length (shape T y) = r" "drop 2 (shape T y) = drop 2 (shape T x)"
  using assms unfolding keeps_spatial_def by blast+

lemma Sequential_keeps_spatial:
  assumes "\<And>m. m \<in> set ms \<Longrightarrow> keeps_spatial T r f m"
  shows "keeps_spatial T r (Sequential_forward f) ms"
  using assms
proof (induction ms)
  case Nil
  show ?case by (rule keeps_spatialI) simp
next
  case (Cons m ms)
  have m: "keeps_spatial T r f m" using Cons.prems by simp
  have ms: "keeps_spatial T r (Sequential_forward f) ms" using Cons by simp
  show ?case
  proof (rule keeps_spatialI)
    fix x y ms1
    assume run: "Sequential_forward f (m # ms) x = (Inr y, ms1)" and x: "length (shape T x) = r"
    from run obtain z m1 ms2 where fm: "f m x = (Inr z, m1)"
      and rest: "Sequential_forward f ms z = (Inr y, ms2)"
      by (auto split: prod.splits sum.splits)
    from keeps_spatialD [OF m fm x] have z: "length (shape T z) = r"
      "drop 2 (shape T z) = drop 2 (shape T x)" by simp_all
    from keeps_spatialD [OF ms rest z(1)] z(2)
    show "length (shape T y) = r \<and> drop 2 (shape T y) = drop 2 (shape T x)" by simp
  qed
qed

lemma list4: "length s = 4 \<Longrightarrow> \<exists>a b c e. s = [a, b, c, e]"
  by (auto simp: length_Suc_conv numeral_eq_Suc)

lemma list5: "length s = 5 \<Longrightarrow> \<exists>a b c e g. s = [a, b, c, e, g]"
  by (auto simp: length_Suc_conv numeral_eq_Suc)

lemma zip_same: "map2 f xs xs = map (\<lambda>x. f x x) xs"
  by (induction xs) simp_all

lemma broadcast_same_spatial:
  assumes "broadcast_shapes a b = Some c" "length a = length b" "drop 2 a = drop 2 b"
  shows "length c = length a" "drop 2 c = drop 2 a"
proof -
  from assms(1,2) have c: "c = map2 (\<lambda>x y. if x = 1 then y else x) a b"
    by (auto simp: broadcast_shapes_def Let_def split: if_splits)
  with assms(2) show "length c = length a" by simp
  have "drop 2 c = map2 (\<lambda>x y. if x = 1 then y else x) (drop 2 a) (drop 2 b)"
    unfolding c by (simp add: drop_map drop_zip)
  also have "\<dots> = drop 2 a" unfolding assms(3) [symmetric] zip_same by (simp add: map_idI)
  finally show "drop 2 c = drop 2 a" .
qed

lemma cat_same_spatial:
  assumes "cat_out_shape [sz, sx, sz1] 1 = Some s1"
  shows "length s1 = length sx" "drop 2 s1 = drop 2 sx"
proof -
  from assms have s1: "s1 = sz[1 := sum_list (map (\<lambda>s. s ! 1) [sz, sx, sz1])]"
    and len: "length sx = length sz" and eq: "sx[1 := 0] = sz[1 := 0]"
    by (auto simp: cat_out_shape_def split: if_splits)
  from s1 len show "length s1 = length sx" by simp
  have "drop 2 s1 = drop 2 sz" unfolding s1 by simp
  also have "\<dots> = drop 2 (sz[1 := 0])" by simp
  also have "\<dots> = drop 2 (sx[1 := 0])" by (simp only: eq)
  also have "\<dots> = drop 2 sx" by simp
  finally show "drop 2 s1 = drop 2 sx" .
qed


lemma Sequential_forward_append:
  "Sequential_forward f (xs @ ys) x =
     (case Sequential_forward f xs x of
        (Inl e, xs1) \<Rightarrow> (Inl e, xs1 @ ys)
      | (Inr y, xs1) \<Rightarrow> (case Sequential_forward f ys y of (r, ys1) \<Rightarrow> (r, xs1 @ ys1)))"
  by (induction xs arbitrary: x) (auto split: prod.splits sum.splits)

lemma append_keeps_spatial:
  assumes "keeps_spatial T r (Sequential_forward f) xs" "keeps_spatial T r (Sequential_forward f) ys"
  shows "keeps_spatial T r (Sequential_forward f) (xs @ ys)"
proof (rule keeps_spatialI)
  fix x y ms1
  assume run: "Sequential_forward f (xs @ ys) x = (Inr y, ms1)" and x: "length (shape T x) = r"
  from run obtain z xs1 ys1 where fx: "Sequential_forward f xs x = (Inr z, xs1)"
    and fy: "Sequential_forward f ys z = (Inr y, ys1)"
    unfolding Sequential_forward_append by (auto split: prod.splits sum.splits)
  from keeps_spatialD [OF assms(1) fx x] have z: "length (shape T z) = r"
    "drop 2 (shape T z) = drop 2 (shape T x)" by simp_all
  from keeps_spatialD [OF assms(2) fy z(1)] z(2)
  show "length (shape T y) = r \<and> drop 2 (shape T y) = drop 2 (shape T x)" by simp
qed

lemma same_shape_layer_keeps_spatial:
  assumes "torch_shapes T" "\<And>s. nn_out_shape m s = Some s"
  shows "keeps_spatial T r (layer_forward T) (Layer m b)"
proof (rule keeps_spatialI)
  fix x y l1
  assume "layer_forward T (Layer m b) x = (Inr y, l1)" and x: "length (shape T x) = r"
  then obtain b1 where "call T m b x = (Inr y, b1)" by (auto split: prod.splits)
  from torch_shapes_call [OF assms(1) this assms(2)] x
  show "length (shape T y) = r \<and> drop 2 (shape T y) = drop 2 (shape T x)" by simp
qed

lemma norm_relu_keep_spatial:
  assumes "torch_shapes T"
  shows "keeps_spatial T r (Sequential_forward (layer_forward T))
           ((if c then [new T (norm_class dims inorm n)] else []) @ (if act then [new T ReLU] else []))"
proof (rule Sequential_keeps_spatial)
  fix m
  assume "m \<in> set ((if c then [new T (norm_class dims inorm n)] else [])
                    @ (if act then [new T ReLU] else []))"
  then have "m = new T (norm_class dims inorm n) \<or> m = new T ReLU" by (auto split: if_splits)
  then show "keeps_spatial T r (layer_forward T) m"
    unfolding new_def
    by (auto intro!: same_shape_layer_keeps_spatial [OF assms] simp: norm_class_def)
qed

lemma pad_conv_2d_keeps_spatial:
  assumes "torch_shapes T"
      and "cls = ReflectionPad2d \<or> cls = ReplicationPad2d \<or> cls = ZeroPad2d"
  shows "keeps_spatial T 4 (Sequential_forward (layer_forward T))
           [Layer (cls d) b, Layer (Conv2d ic oc 3 d bias) b']"
proof (rule keeps_spatialI)
  fix x y ms1
  assume run: "Sequential_forward (layer_forward T) [Layer (cls d) b, Layer (Conv2d ic oc 3 d bias) b'] x
                 = (Inr y, ms1)"
    and x: "length (shape T x) = 4"
  from run obtain z b1 b2 where p: "call T (cls d) b x = (Inr z, b1)"
    and c: "call T (Conv2d ic oc 3 d bias) b' z = (Inr y, b2)"
    by (auto split: prod.splits sum.splits)
  from list4 [OF x] obtain n ch h w where s: "shape T x = [n, ch, h, w]" by blast
  have "nn_out_shape (cls d) (shape T x) = Some [n, ch, h + (d + d), w + (d + d)]"
    using assms(2) s by (auto simp: pad_out_shape_def)
  from torch_shapes_call [OF assms(1) p this]
  have z: "shape T z = [n, ch, h + (d + d), w + (d + d)]" .
  then have "nn_out_shape (Conv2d ic oc 3 d bias) (shape T z) = Some [n, oc, h, w]"
    by (simp add: conv_out_shape_def)
  from torch_shapes_call [OF assms(1) c this] s
  show "length (shape T y) = 4 \<and> drop 2 (shape T y) = drop 2 (shape T x)" by simp
qed

lemma pad_conv_3d_keeps_spatial:
  assumes "torch_shapes T"
  shows "keeps_spatial T 5 (Sequential_forward (layer_forward T))
           [Pad3dLayer \<lparr>self_pad = replicate 6 d, self_mode = pm\<rparr>, Layer (Conv3d ic oc 3 d bias) b']"
proof (rule keeps_spatialI)
  fix x y ms1
  assume run: "Sequential_forward (layer_forward T)
                 [Pad3dLayer \<lparr>self_pad = replicate 6 d, self_mode = pm\<rparr>,
                  Layer (Conv3d ic oc 3 d bias) b'] x = (Inr y, ms1)"
    and x: "length (shape T x) = 5"
  from run obtain z b2 where p: "F_pad T x (replicate 6 d) pm = Inr z"
    and c: "call T (Conv3d ic oc 3 d bias) b' z = (Inr y, b2)"
    by (auto simp: Pad3d_forward_def split: prod.splits sum.splits)
  from list5 [OF x] obtain n ch h w u where s: "shape T x = [n, ch, h, w, u]" by blast
  have r6: "replicate 6 d = [d, d, d, d, d, d]" by (simp add: numeral_eq_Suc)
  from torch_shapes_F_pad [OF assms p] s
  have z: "shape T z = [n, ch, h + (d + d), w + (d + d), u + (d + d)]"
    by (simp add: pad_out_shape_def r6)
  then have "nn_out_shape (Conv3d ic oc 3 d bias) (shape T z) = Some [n, oc, h, w, u]"
    by (simp add: conv_out_shape_def)
  from torch_shapes_call [OF assms c this] s
  show "length (shape T y) = 5 \<and> drop 2 (shape T y) = drop 2 (shape T x)" by simp
qed

lemma conv1_keeps_spatial:
  assumes "torch_shapes T"
  shows "keeps_spatial T (batch_rank dims) (layer_forward T) (Layer (conv_class dims ic oc 1 d bias) b)"
proof (rule keeps_spatialI)
  fix x y l1
  assume run: "layer_forward T (Layer (conv_class dims ic oc 1 d bias) b) x = (Inr y, l1)"
    and x: "length (shape T x) = batch_rank dims"
  from run obtain b1 where c: "call T (conv_class dims ic oc 1 d bias) b x = (Inr y, b1)"
    by (auto split: prod.splits)
  have "nn_out_shape (conv_class dims ic oc 1 d bias) (shape T x)
          = Some (take 1 (shape T x) @ [oc] @ drop 2 (shape T x))"
    using x by (simp add: conv_class_def batch_rank_def conv_out_shape_def)
  from torch_shapes_call [OF assms c this] x
  show "length (shape T y) = batch_rank dims \<and> drop 2 (shape T y) = drop 2 (shape T x)"
    by (auto simp: batch_rank_def)
qed


lemma ConvolutionalBlock_init_keeps_spatial:
  assumes "torch_shapes T"
      and "ConvolutionalBlock_init T ic oc d dims bn inorm pm pre k act = Inr cb"
      and "k = 3 \<or> k = 1"
  shows "keeps_spatial T (batch_rank dims) (ConvolutionalBlock_forward T) cb"
proof -
  let ?r = "batch_rank dims"
  let ?seq = "Sequential_forward (layer_forward T)"
  let ?before = "if pre then (if bn \<or> inorm then [new T (norm_class dims inorm ic)] else [])
                        @ (if act then [new T ReLU] else [])
            else []"
  let ?middle = "(if 1 < k
              then [if dims = Some 2
                    then new T ((if pm = ''reflect'' then ReflectionPad2d
                                 else if pm = ''replicate'' then ReplicationPad2d
                                 else ZeroPad2d) d)
                    else Pad3dLayer \<lparr>self_pad = replicate 6 d, self_mode = pm\<rparr>]
              else [])
           @ [new T (conv_class dims ic oc k d (\<not> (inorm \<or> bn)))]"
  let ?after = "if \<not> pre then (if bn \<or> inorm then [new T (norm_class dims inorm oc)] else [])
                           @ (if act then [new T ReLU] else [])
              else []"
  have layers: "self_convolutional_block cb = ?before @ ?middle @ ?after"
    using ConvolutionalBlock_init_layers [OF assms(2)] by simp
  have nil: "keeps_spatial T ?r ?seq []" by (rule keeps_spatialI) simp
  have before: "keeps_spatial T ?r ?seq ?before"
    using norm_relu_keep_spatial [OF assms(1), of ?r "bn \<or> inorm" dims inorm ic act] nil
    by (cases pre) simp_all
  have after: "keeps_spatial T ?r ?seq ?after"
    using norm_relu_keep_spatial [OF assms(1), of ?r "bn \<or> inorm" dims inorm oc act] nil
    by (cases pre) simp_all
  have middle: "keeps_spatial T ?r ?seq ?middle"
  proof (cases "k = 1")
    case True
    have "keeps_spatial T ?r ?seq [new T (conv_class dims ic oc 1 d (\<not> (inorm \<or> bn)))]"
      unfolding new_def
      by (rule Sequential_keeps_spatial) (simp add: conv1_keeps_spatial [OF assms(1)])
    with True show ?thesis by simp
  next
    case False
    with assms(3) have k: "k = 3" by simp
    with assms(2) have dims: "dims = Some 2 \<or> dims = Some 3"
      using ConvolutionalBlock_init_Inr [of T ic oc d dims bn inorm pm pre k act] by auto
    then show ?thesis
    proof
      assume d2: "dims = Some 2"
      have "keeps_spatial T 4 ?seq
              [Layer ((if pm = ''reflect'' then ReflectionPad2d
                       else if pm = ''replicate'' then ReplicationPad2d else ZeroPad2d) d)
                 (buffers T ((if pm = ''reflect'' then ReflectionPad2d
                       else if pm = ''replicate'' then ReplicationPad2d else ZeroPad2d) d)),
               Layer (Conv2d ic oc 3 d (\<not> (inorm \<or> bn)))
                 (buffers T (Conv2d ic oc 3 d (\<not> (inorm \<or> bn))))]"
        by (rule pad_conv_2d_keeps_spatial [OF assms(1)]) simp
      with d2 k show ?thesis by (simp add: new_def conv_class_def batch_rank_def)
    next
      assume d3: "dims = Some 3"
      have "keeps_spatial T 5 ?seq
              [Pad3dLayer \<lparr>self_pad = replicate 6 d, self_mode = pm\<rparr>,
               Layer (Conv3d ic oc 3 d (\<not> (inorm \<or> bn)))
                 (buffers T (Conv3d ic oc 3 d (\<not> (inorm \<or> bn))))]"
        by (rule pad_conv_3d_keeps_spatial [OF assms(1)])
      with d3 k show ?thesis by (simp add: new_def conv_class_def batch_rank_def)
    qed
  qed
  have all: "keeps_spatial T ?r ?seq (self_convolutional_block cb)"
    unfolding layers by (intro append_keeps_spatial before middle after)
  show ?thesis
  proof (rule keeps_spatialI)
    fix x y cb1
    assume "ConvolutionalBlock_forward T cb x = (Inr y, cb1)" and x: "length (shape T x) = ?r"
    then obtain ls where "?seq (self_convolutional_block cb) x = (Inr y, ls)"
      by (auto simp: ConvolutionalBlock_forward_def split: prod.splits)
    from keeps_spatialD [OF all this x]
    show "length (shape T y) = ?r \<and> drop 2 (shape T y) = drop 2 (shape T x)" by simp
  qed
qed

lemma conv_blocks_keep_spatial:
  assumes "torch_shapes T" "conv_blocks T n ic oc d dims bn inorm pm = Inr bs" "b \<in> set bs"
  shows "keeps_spatial T (batch_rank dims) (ConvolutionalBlock_forward T) b"
  using assms(2,3)
proof (induction n arbitrary: ic bs)
  case 0
  then show ?case by simp
next
  case (Suc n)
  from Suc.prems(1) obtain b0 rest where
    b0: "ConvolutionalBlock_init T ic oc d dims bn inorm pm True 3 True = Inr b0" and
    rest: "conv_blocks T n oc oc d dims bn inorm pm = Inr rest" and
    bs: "bs = b0 # rest"
    by (auto split: sum.splits)
  from Suc.prems(2) bs have "b = b0 \<or> b \<in> set rest" by simp
  then show ?case
  proof
    assume "b = b0"
    with ConvolutionalBlock_init_keeps_spatial [OF assms(1) b0] show ?thesis by simp
  next
    assume "b \<in> set rest"
    with Suc.IH [OF rest] show ?thesis .
  qed
qed


lemma add_keeps_spatial:
  assumes "torch_shapes T" "add T x1 out = Inr y"
      and "length (shape T x1) = r" "length (shape T out) = r"
      and "drop 2 (shape T x1) = sp" "drop 2 (shape T out) = sp"
  shows "length (shape T y) = r \<and> drop 2 (shape T y) = sp"
  using broadcast_same_spatial [OF torch_shapes_add [OF assms(1,2)]] assms(3-6) by simp

lemma pad_shortcut_keeps_spatial:
  assumes "torch_shapes T" "pad_shortcut T x out = Inr x1"
  shows "length (shape T x1) = length (shape T x) \<and> drop 2 (shape T x1) = drop 2 (shape T x)"
proof -
  from assms(2) obtain z where "cat T [z, x, z] CHANNELS_DIM = Inr x1"
    by (auto simp: pad_shortcut_def Let_def split: sum.splits)
  from torch_shapes_cat [OF assms(1) this]
  have "cat_out_shape [shape T z, shape T x, shape T z] 1 = Some (shape T x1)"
    by (simp add: CHANNELS_DIM_def)
  from cat_same_spatial [OF this] show ?thesis by simp
qed

lemma ResidualBlock_init_keeps_spatial:
  assumes "torch_shapes T"
      and "ResidualBlock_init T ic oc n d dims bn inorm res rt pm = Inr rb"
  shows "keeps_spatial T (batch_rank dims) (ResidualBlock_forward T) rb"
proof (rule keeps_spatialI)
  let ?r = "batch_rank dims"
  fix x y rb1
  assume run: "ResidualBlock_forward T rb x = (Inr y, rb1)" and x: "length (shape T x) = ?r"
  note a = ResidualBlock_init_attributes [OF assms(2)]
  have ks: "keeps_spatial T ?r (Sequential_forward (ConvolutionalBlock_forward T)) (self_residual_block rb)"
    by (rule Sequential_keeps_spatial) (rule conv_blocks_keep_spatial [OF assms(1) a(7)])
  from run obtain out bs where
    stack: "Sequential_forward (ConvolutionalBlock_forward T) (self_residual_block rb) x = (Inr out, bs)"
    by (auto simp: ResidualBlock_forward_def split: prod.splits sum.splits)
  have out: "length (shape T out) = ?r" "drop 2 (shape T out) = drop 2 (shape T x)"
    by (rule keeps_spatialD [OF ks stack x])+
  show "length (shape T y) = ?r \<and> drop 2 (shape T y) = drop 2 (shape T x)"
  proof (cases res)
    case False
    with run stack a(1) have "y = out" by (simp add: ResidualBlock_forward_def Let_def)
    with out show ?thesis by simp
  next
    case True
    show ?thesis
    proof (cases "ic = oc")
      case same: True
      with run stack a(1,2) True have "add T x out = Inr y"
        by (simp add: ResidualBlock_forward_def Let_def)
      from add_keeps_spatial [OF assms(1) this x out(1) refl out(2)] show ?thesis .
    next
      case differ: False
      show ?thesis
      proof (cases "rt = ''project''")
        case True
        from run stack a(1,2,3,5) \<open>res\<close> differ True obtain x1 l1 where
          p: "layer_forward T (new T (conv_class dims ic oc 1 d False)) x = (Inr x1, l1)" and
          s: "add T x1 out = Inr y"
          by (auto simp: ResidualBlock_forward_def Let_def split: prod.splits sum.splits)
        from keeps_spatialD [OF conv1_keeps_spatial [OF assms(1)] p [unfolded new_def] x]
        have "length (shape T x1) = ?r" "drop 2 (shape T x1) = drop 2 (shape T x)" by simp_all
        from add_keeps_spatial [OF assms(1) s this(1) out(1) this(2) out(2)] show ?thesis .
      next
        case False
        with a(6) have pad: "rt = ''pad''" by simp
        from run stack a(1,2,3) \<open>res\<close> differ pad obtain x1 where
          p: "pad_shortcut T x out = Inr x1" and s: "add T x1 out = Inr y"
          by (auto simp: ResidualBlock_forward_def Let_def split: prod.splits sum.splits)
        from pad_shortcut_keeps_spatial [OF assms(1) p] x
        have "length (shape T x1) = ?r" "drop 2 (shape T x1) = drop 2 (shape T x)" by simp_all
        from add_keeps_spatial [OF assms(1) s this(1) out(1) this(2) out(2)] show ?thesis .
      qed
    qed
  qed
qed

lemma residual_blocks_keep_spatial:
  assumes "torch_shapes T" "residual_blocks T n ic oc B d dims bn inorm res pm = Inr bs" "b \<in> set bs"
  shows "keeps_spatial T (batch_rank dims) (ResidualBlock_forward T) b"
  using assms(2,3)
proof (induction n arbitrary: ic bs)
  case 0
  then show ?case by simp
next
  case (Suc n)
  from Suc.prems(1) obtain b0 rest where
    b0: "ResidualBlock_init T ic oc B d dims bn inorm res ''pad'' pm = Inr b0" and
    rest: "residual_blocks T n oc oc B d dims bn inorm res pm = Inr rest" and
    bs: "bs = b0 # rest"
    by (auto split: sum.splits)
  from Suc.prems(2) bs have "b = b0 \<or> b \<in> set rest" by simp
  then show ?case
  proof
    assume "b = b0"
    with ResidualBlock_init_keeps_spatial [OF assms(1) b0] show ?thesis by simp
  next
    assume "b \<in> set rest"
    with Suc.IH [OF rest] show ?thesis .
  qed
qed

lemma DilationBlock_init_keeps_spatial:
  assumes "torch_shapes T" "DilationBlock_init T ic oc d dims B N bn inorm res pm = Inr b"
  shows "keeps_spatial T (batch_rank dims) (DilationBlock_forward T) b"
proof (rule keeps_spatialI)
  let ?r = "batch_rank dims"
  fix x y b1
  assume run: "DilationBlock_forward T b x = (Inr y, b1)" and x: "length (shape T x) = ?r"
  from assms(2) obtain bs where
    bs: "residual_blocks T (nat N) ic oc B d dims bn inorm res pm = Inr bs" and
    b: "self_dilation_block b = bs"
    by (auto simp: DilationBlock_init_def split: sum.splits)
  have ks: "keeps_spatial T ?r (Sequential_forward (ResidualBlock_forward T)) (self_dilation_block b)"
    unfolding b by (rule Sequential_keeps_spatial) (rule residual_blocks_keep_spatial [OF assms(1) bs])
  from run obtain bs1 where
    seq: "Sequential_forward (ResidualBlock_forward T) (self_dilation_block b) x = (Inr y, bs1)"
    by (auto simp: DilationBlock_forward_def split: prod.splits)
  from keeps_spatialD [OF ks seq x]
  show "length (shape T y) = ?r \<and> drop 2 (shape T y) = drop 2 (shape T x)" by simp
qed

lemma Block_Dilation_keeps_spatial:
  assumes "keeps_spatial T r (DilationBlock_forward T) b"
  shows "keeps_spatial T r (block_forward T) (Block_Dilation b)"
proof (rule keeps_spatialI)
  fix x y b1
  assume "block_forward T (Block_Dilation b) x = (Inr y, b1)" and x: "length (shape T x) = r"
  then obtain b2 where "DilationBlock_forward T b x = (Inr y, b2)" by (auto split: prod.splits)
  from keeps_spatialD [OF assms this x]
  show "length (shape T y) = r \<and> drop 2 (shape T y) = drop 2 (shape T x)" by simp
qed

lemma Block_Conv_keeps_spatial:
  assumes "keeps_spatial T r (ConvolutionalBlock_forward T) b"
  shows "keeps_spatial T r (block_forward T) (Block_Conv b)"
proof (rule keeps_spatialI)
  fix x y b1
  assume "block_forward T (Block_Conv b) x = (Inr y, b1)" and x: "length (shape T x) = r"
  then obtain b2 where "ConvolutionalBlock_forward T b x = (Inr y, b2)" by (auto split: prod.splits)
  from keeps_spatialD [OF assms this x]
  show "length (shape T y) = r \<and> drop 2 (shape T y) = drop 2 (shape T x)" by simp
qed

lemma Block_Layer_keeps_spatial:
  assumes "keeps_spatial T r (layer_forward T) l"
  shows "keeps_spatial T r (block_forward T) (Block_Layer l)"
proof (rule keeps_spatialI)
  fix x y b1
  assume "block_forward T (Block_Layer l) x = (Inr y, b1)" and x: "length (shape T x) = r"
  then obtain l1 where "layer_forward T l x = (Inr y, l1)" by (auto split: prod.splits)
  from keeps_spatialD [OF assms this x]
  show "length (shape T y) = r \<and> drop 2 (shape T y) = drop 2 (shape T x)" by simp
qed

lemma dilation_blocks_keep_spatial:
  assumes "torch_shapes T"
      and "dilation_blocks T idxs ic oc db dims B N bn inorm res pm = Inr (blocks, oc1)"
      and "b \<in> set blocks"
  shows "keeps_spatial T (batch_rank dims) (block_forward T) b"
  using assms(2,3)
proof (induction idxs arbitrary: ic oc db blocks oc1)
  case Nil
  then show ?case by simp
next
  case (Cons i idxs)
  from Cons.prems(1) obtain ic1 b0 rest where
    b0: "DilationBlock_init T ic1 oc (2 ^ i) dims B N bn inorm res pm = Inr b0" and
    rest: "dilation_blocks T idxs ic1 (oc * 2) (Some b0) dims B N bn inorm res pm = Inr (rest, oc1)" and
    blocks: "blocks = Block_Dilation b0 # rest"
    by (auto simp: Let_def split: sum.splits)
  from Cons.prems(2) blocks have "b = Block_Dilation b0 \<or> b \<in> set rest" by simp
  then show ?case
  proof
    assume "b = Block_Dilation b0"
    with Block_Dilation_keeps_spatial [OF DilationBlock_init_keeps_spatial [OF assms(1) b0]]
    show ?thesis by simp
  next
    assume "b \<in> set rest"
    with Cons.IH [OF rest] show ?thesis .
  qed
qed

lemma HighResNet_init_blocks_keep_spatial:
  assumes "torch_shapes T"
      and "HighResNet_init T ic oc p act dims B N D bn inorm res pm dr = Inr net"
      and "b \<in> set (self_block net)"
  shows "keeps_spatial T (batch_rank dims) (block_forward T) b"
proof -
  from assms(2) obtain first blocks1 oc1 blocks2 oc3 classifier where
    first: "ConvolutionalBlock_init T ic (2 ^ p) 1 dims bn inorm pm False 3 True = Inr first" and
    blocks1: "dilation_blocks T [0..<nat D] (2 ^ p) (2 ^ p) None dims B N bn inorm res pm
                = Inr (blocks1, oc1)" and
    blocks2: "(if dr
               then (case ConvolutionalBlock_init T (oc1 div 2) 80 1 dims bn inorm ''constant''
                            False 1 True of
                       Inl e \<Rightarrow> Inl e
                     | Inr dropout_conv_block \<Rightarrow>
                         Inr ([Block_Conv dropout_conv_block, Block_Layer (new T Dropout3d)], 80))
               else Inr ([], oc1 div 2)) = Inr (blocks2, oc3)" and
    classifier: "ConvolutionalBlock_init T oc3 oc 1 dims bn inorm pm False 1 False = Inr classifier" and
    block: "self_block net = [Block_Conv first] @ blocks1 @ blocks2 @ [Block_Conv classifier]"
    by (auto simp: HighResNet_init_def Let_def split: if_splits sum.splits prod.splits)
  from assms(3) block consider "b = Block_Conv first" | "b \<in> set blocks1" | "b \<in> set blocks2"
    | "b = Block_Conv classifier" by auto
  then show ?thesis
  proof cases
    case 1
    with Block_Conv_keeps_spatial [OF ConvolutionalBlock_init_keeps_spatial [OF assms(1) first]]
    show ?thesis by simp
  next
    case 2
    with dilation_blocks_keep_spatial [OF assms(1) blocks1] show ?thesis by simp
  next
    case 3
    with blocks2 obtain dc where
      dc: "ConvolutionalBlock_init T (oc1 div 2) 80 1 dims bn inorm ''constant'' False 1 True = Inr dc"
      and b: "b = Block_Conv dc \<or> b = Block_Layer (new T Dropout3d)"
      by (auto split: if_splits sum.splits)
    from b show ?thesis
    proof
      assume "b = Block_Conv dc"
      with Block_Conv_keeps_spatial [OF ConvolutionalBlock_init_keeps_spatial [OF assms(1) dc]]
      show ?thesis by simp
    next
      assume "b = Block_Layer (new T Dropout3d)"
      with Block_Layer_keeps_spatial [OF same_shape_layer_keeps_spatial [OF assms(1), of Dropout3d]]
      show ?thesis by (simp add: new_def)
    qed
  next
    case 4
    with Block_Conv_keeps_spatial [OF ConvolutionalBlock_init_keeps_spatial [OF assms(1) classifier]]
    show ?thesis by simp
  qed
qed

lemma HighResNet_init_keeps_spatial:
  assumes "torch_shapes T"
      and "HighResNet_init T ic oc p act dims B N D bn inorm res pm dr = Inr net"
  shows "keeps_spatial T (batch_rank dims) (HighResNet_forward T) net"
proof (rule keeps_spatialI)
  let ?r = "batch_rank dims"
  fix x y net1
  assume run: "HighResNet_forward T net x = (Inr y, net1)" and x: "length (shape T x) = ?r"
  have blocks: "keeps_spatial T ?r (Sequential_forward (block_forward T)) (self_block net)"
    by (rule Sequential_keeps_spatial) (rule HighResNet_init_blocks_keep_spatial [OF assms])
  from run obtain a z bs a1 where
    a: "self_outputs_activation net = Some a" and
    seq: "Sequential_forward (block_forward T) (self_block net) x = (Inr z, bs)" and
    act: "layer_forward T a z = (Inr y, a1)"
    by (auto simp: HighResNet_forward_def split: option.splits prod.splits sum.splits)
  from keeps_spatialD [OF blocks seq x]
  have z: "length (shape T z) = ?r" "drop 2 (shape T z) = drop 2 (shape T x)" by simp_all
  from a HighResNet_init_attributes(6) [OF assms(2)]
  have "a = new T Sigmoid \<or> a = new T Softmax \<or> a = new T Identity" by (auto split: if_splits)
  then have "keeps_spatial T ?r (layer_forward T) a"
    unfolding new_def by (auto intro!: same_shape_layer_keeps_spatial [OF assms(1)])
  from keeps_spatialD [OF this act z(1)] z(2)
  show "length (shape T y) = ?r \<and> drop 2 (shape T y) = drop 2 (shape T x)" by simp
qed


text \<open>
  Claim C8, for every framework that keeps the shape rules. A convolutional block of
  kernel size 3 has, right before its convolution, a padding layer that pads by the
  dilation of the convolution on both sides of every spatial dimension, and what it
  returns on a batch tensor has the spatial dimensions of its input. On a constructed
  network every block keeps the spatial shape, and what \<^verbatim>\<open>forward\<close> returns on a batch
  tensor has the spatial dimensions of its input.
\<close>

theorem spatial_shape_preserved:
  assumes "torch_shapes T"
  shows "(ConvolutionalBlock_init T ic oc d dims bn inorm pm pre 3 act = Inr cb \<longrightarrow>
            self_convolutional_block cb =
              (if pre then (if bn \<or> inorm then [new T (norm_class dims inorm ic)] else [])
                           @ (if act then [new T ReLU] else [])
               else [])
              @ [if dims = Some 2
                 then new T ((if pm = ''reflect'' then ReflectionPad2d
                              else if pm = ''replicate'' then ReplicationPad2d
                              else ZeroPad2d) d)
                 else Pad3dLayer \<lparr>self_pad = replicate 6 d, self_mode = pm\<rparr>,
                 new T (conv_class dims ic oc 3 d (\<not> (inorm \<or> bn)))]
              @ (if \<not> pre then (if bn \<or> inorm then [new T (norm_class dims inorm oc)] else [])
                              @ (if act then [new T ReLU] else [])
                 else [])
            \<and> (\<forall>x y cb1. ConvolutionalBlock_forward T cb x = (Inr y, cb1)
                   \<longrightarrow> length (shape T x) = batch_rank dims
                   \<longrightarrow> drop 2 (shape T y) = drop 2 (shape T x)))
         \<and> (HighResNet_init T ic1 oc1 p a dims1 B N D bn1 inorm1 res pm1 dr = Inr net \<longrightarrow>
              (\<forall>b\<in>set (self_block net). keeps_spatial T (batch_rank dims1) (block_forward T) b)
              \<and> (\<forall>x y net1. HighResNet_forward T net x = (Inr y, net1)
                     \<longrightarrow> length (shape T x) = batch_rank dims1
                     \<longrightarrow> drop 2 (shape T y) = drop 2 (shape T x)))"
proof (intro conjI impI ballI allI)
  assume cb: "ConvolutionalBlock_init T ic oc d dims bn inorm pm pre 3 act = Inr cb"
  from ConvolutionalBlock_init_layers [OF cb]
  show "self_convolutional_block cb =
              (if pre then (if bn \<or> inorm then [new T (norm_class dims inorm ic)] else [])
                           @ (if act then [new T ReLU] else [])
               else [])
              @ [if dims = Some 2
                 then new T ((if pm = ''reflect'' then ReflectionPad2d
                              else if pm = ''replicate'' then ReplicationPad2d
                              else ZeroPad2d) d)
                 else Pad3dLayer \<lparr>self_pad = replicate 6 d, self_mode = pm\<rparr>,
                 new T (conv_class dims ic oc 3 d (\<not> (inorm \<or> bn)))]
              @ (if \<not> pre then (if bn \<or> inorm then [new T (norm_class dims inorm oc)] else [])
                              @ (if act then [new T ReLU] else [])
                 else [])"
    by simp
next
  fix x y cb1
  assume cb: "ConvolutionalBlock_init T ic oc d dims bn inorm pm pre 3 act = Inr cb"
    and run: "ConvolutionalBlock_forward T cb x = (Inr y, cb1)"
    and x: "length (shape T x) = batch_rank dims"
  have "keeps_spatial T (batch_rank dims) (ConvolutionalBlock_forward T) cb"
    by (rule ConvolutionalBlock_init_keeps_spatial [OF assms cb]) simp
  from keeps_spatialD(2) [OF this run x]
  show "drop 2 (shape T y) = drop 2 (shape T x)" .
next
  fix b
  assume "HighResNet_init T ic1 oc1 p a dims1 B N D bn1 inorm1 res pm1 dr = Inr net"
    and "b \<in> set (self_block net)"
  then show "keeps_spatial T (batch_rank dims1) (block_forward T) b"
    by (rule HighResNet_init_blocks_keep_spatial [OF assms])
next
  fix x y net1
  assume net: "HighResNet_init T ic1 oc1 p a dims1 B N D bn1 inorm1 res pm1 dr = Inr net"
    and run: "HighResNet_forward T net x = (Inr y, net1)"
    and x: "length (shape T x) = batch_rank dims1"
  from keeps_spatialD(2) [OF HighResNet_init_keeps_spatial [OF assms net] run x]
  show "drop 2 (shape T y) = drop 2 (shape T x)" .
qed

theorem spatial_shape_preserved_witness:
  "\<exists>net y. HighResNet_init shape_torch 1 3 1 ''softmax'' (Some 2) 1 2 2 True False True ''reflect'' True
               = Inr net
     \<and> fst (HighResNet_forward shape_torch net [2, 1, 6, 5]) = Inr y
     \<and> length y = 4 \<and> drop 2 y = [6, 5]"
proof -
  define r where
    "r = HighResNet_init shape_torch 1 3 1 ''softmax'' (Some 2) 1 2 2 True False True ''reflect'' True"
  have "\<not> isl r \<and> fst (HighResNet_forward shape_torch (projr r) [2, 1, 6, 5]) = Inr [2, 3, 6, 5]"
    unfolding r_def by code_simp
  then obtain net where net: "r = Inr net"
    and fw: "fst (HighResNet_forward shape_torch net [2, 1, 6, 5]) = Inr [2, 3, 6, 5]"
    by (cases r) auto
  then obtain net1 where run: "HighResNet_forward shape_torch net [2, 1, 6, 5] = (Inr [2, 3, 6, 5], net1)"
    by (cases "HighResNet_forward shape_torch net [2, 1, 6, 5]") auto
  have "length (shape shape_torch [2, 1, 6, 5]) = batch_rank (Some 2)"
    by (simp add: shape_torch_def batch_rank_def)
  with spatial_shape_preserved [OF shape_torch_shapes, of 1 3 1 "Some 2" True False "''reflect''" True True
      "\<lparr>self_convolutional_block = []\<rparr>" 1 3 1 "''softmax''" "Some 2" 1 2 2 True False True "''reflect''" True net]
    net run
  have "drop 2 (shape shape_torch [2, 3, 6, 5]) = drop 2 (shape shape_torch [2, 1, 6, 5])"
    unfolding r_def by blast
  then have "drop 2 [2, 3, 6, 5] = [6, 5::int]" by (simp add: shape_torch_def)
  with net fw show ?thesis unfolding r_def by auto
qed









end
